theory Spec2Isabelle
  imports Main "HOL-Library.Word"
begin

section \<open>Values exchanged with the outside world\<close>

text \<open>
  The program is \<^verbatim>\<open>src/index.ts\<close>: it reads the backend table \<^verbatim>\<open>cfg.mcpServers\<close>,
  lists the tools of every backend (\<^verbatim>\<open>getToolDefinitions\<close>), asks a ranked list of
  OpenAI models to pick one (\<^verbatim>\<open>chooseTool\<close>) and calls the picked tool
  (\<^verbatim>\<open>callMcpTool\<close>). An earlier variant of the same file, whose MCP client calls itself
  \<^verbatim>\<open>desktop-lister\<close>, has the same three functions and fills in arguments differently;
  its block is modelled next to the current one, with the suffix \<open>_v1\<close>.

  JSON values. Numbers are integers here; floating point is outside the model.
  An object is the list of its own properties in enumeration order.
\<close>

datatype json =
    JNull
  | JBool bool
  | JNum int
  | JStr string
  | JArr "json list"
  | JObj "(string \<times> json) list"

text \<open>
  A JSON text is represented by what \<^verbatim>\<open>JSON.parse\<close> makes of it: the value it denotes,
  or nothing when the text is not JSON.
\<close>

datatype json_text = Malformed | Text json

text \<open>Text content is a JavaScript string: a sequence of UTF-16 code units.\<close>

type_synonym js_string = "16 word list"

datatype error =
    TransportError
  | APIError
  | SyntaxError
  | TypeError
  | ZodError
  | NoToolProposed
  | ServerConfigNotFound string

text \<open>
  \<open>TransportError\<close>: \<^verbatim>\<open>client.connect\<close>, \<^verbatim>\<open>client.listTools\<close> or \<^verbatim>\<open>client.callTool\<close>
  rejects. \<open>APIError\<close>: \<^verbatim>\<open>openai.chat.completions.create\<close> rejects. \<open>SyntaxError\<close>:
  \<^verbatim>\<open>JSON.parse\<close>. \<open>TypeError\<close>: a property read on \<^verbatim>\<open>undefined\<close> or \<^verbatim>\<open>null\<close>, or a
  property created on a primitive in strict mode. \<open>ZodError\<close>:
  \<^verbatim>\<open>CallToolResultSchema.parse\<close>. \<open>NoToolProposed\<close>: the \<^verbatim>\<open>Error\<close> thrown after the
  model loop of \<^verbatim>\<open>chooseTool\<close>. \<open>ServerConfigNotFound\<close>: the \<^verbatim>\<open>Error\<close> thrown by
  \<^verbatim>\<open>callMcpTool\<close> when \<^verbatim>\<open>cfg.mcpServers[def.serverKey]\<close> is missing.
\<close>

record server_config =
  command :: string
  args :: "string list"
  env :: "(string \<times> string) list option"

text \<open>\<^verbatim>\<open>Object.entries(cfg.mcpServers)\<close>: the backends in the enumeration order of the object.\<close>

type_synonym mcp_servers = "(string \<times> server_config) list"

record tool =
  name :: string
  description :: string
  parameters :: json

record tool_definition = tool +
  serverKey :: string
  toolName :: string

datatype content =
    TextContent (ctext: js_string)
  | ImageContent
  | AudioContent
  | ResourceLink
  | EmbeddedResource

fun ctype :: "content \<Rightarrow> string" where
  "ctype (TextContent t) = ''text''"
| "ctype ImageContent = ''image''"
| "ctype AudioContent = ''audio''"
| "ctype ResourceLink = ''resource_link''"
| "ctype EmbeddedResource = ''resource''"

text \<open>What a backend sends back for a tool call: an envelope with a content list, or not.\<close>

datatype call_tool_raw = NotAResult | Envelope "content list"

text \<open>
  One spawned backend process, as the MCP client sees it: whether \<^verbatim>\<open>connect\<close> resolves,
  what \<^verbatim>\<open>listTools\<close> answers (\<open>None\<close>: it rejects) and what \<^verbatim>\<open>callTool\<close> answers for a
  tool name and an argument value. A \<^verbatim>\<open>connect\<close> that rejects leaves no session behind:
  either the process did not start, or the client closed the transport itself when the
  handshake failed.
\<close>

record process =
  connects :: bool
  listTools :: "tool list option"
  callTool :: "string \<Rightarrow> json \<Rightarrow> call_tool_raw option"

text \<open>
  \<^verbatim>\<open>call.function.arguments\<close>. The OpenAI SDK types it as a string holding JSON; the code
  also tests for \<^verbatim>\<open>undefined\<close> (\<^verbatim>\<open>?? '{}'\<close>) and for an object (\<^verbatim>\<open>typeof ... === 'object'\<close>).
\<close>

datatype js_arguments = Undefined | Str json_text | Obj "(string \<times> json) list"

record fn_call =
  fn_name :: string
  fn_arguments :: js_arguments

record choice =
  tool_calls :: "fn_call list option"

datatype completion = Rejected | Completion "choice list"

text \<open>
  The outside world. \<open>spawn n c\<close> is the process that the \<open>n\<close>-th spawn of the run yields
  for the server configuration \<open>c\<close>; \<open>create n model question tools\<close> is the answer to the
  \<open>n\<close>-th chat completion request of the run. Indexing by \<open>n\<close> lets a backend or a model
  answer differently each time it is asked. \<open>DEFAULT_PATH\<close> is \<^verbatim>\<open>process.env.DEFAULT_PATH\<close>.
\<close>

record system =
  spawn :: "nat \<Rightarrow> server_config \<Rightarrow> process"
  create :: "nat \<Rightarrow> string \<Rightarrow> string \<Rightarrow> tool list \<Rightarrow> completion"
  DEFAULT_PATH :: "string option"

text \<open>
  What the run has done so far: the sessions it opened and closed, the requests it sent.
  A session is named by the number of the spawn that created it.
\<close>

datatype event =
    Opened nat string
  | Listed nat
  | Closed nat
  | Called nat string json
  | Asked nat string

record world =
  spawned :: nat
  asked :: nat
  trace :: "event list"

section \<open>getToolDefinitions\<close>

definition tag :: "string \<Rightarrow> tool \<Rightarrow> tool_definition" where
  "tag key t =
     \<lparr>name = name t, description = description t, parameters = parameters t,
      serverKey = key, toolName = name t\<rparr>"

text \<open>
  The \<^verbatim>\<open>for\<close> loop over \<^verbatim>\<open>Object.entries(cfg.mcpServers)\<close>. \<^verbatim>\<open>await\<close> on a rejected
  promise leaves the function at once, so \<^verbatim>\<open>transport.close()\<close> is reached only after
  \<^verbatim>\<open>listTools\<close> has answered.
\<close>

fun getToolDefinitions_loop ::
  "system \<Rightarrow> mcp_servers \<Rightarrow> tool_definition list \<Rightarrow> world
     \<Rightarrow> (error + tool_definition list) \<times> world" where
  "getToolDefinitions_loop sys [] toolDefinitions w = (Inr toolDefinitions, w)"
| "getToolDefinitions_loop sys ((key, serverConfig) # rest) toolDefinitions w =
     (let pid = spawned w;
          client = spawn sys pid serverConfig;
          w1 = w\<lparr>spawned := Suc pid\<rparr>
      in if \<not> connects client then (Inl TransportError, w1)
         else
           (case listTools client of
              None \<Rightarrow>
                (Inl TransportError, w1\<lparr>trace := trace w1 @ [Opened pid key, Listed pid]\<rparr>)
            | Some tools \<Rightarrow>
                getToolDefinitions_loop sys rest (toolDefinitions @ map (tag key) tools)
                  (w1\<lparr>trace := trace w1 @ [Opened pid key, Listed pid, Closed pid]\<rparr>)))"

definition getToolDefinitions ::
  "system \<Rightarrow> mcp_servers \<Rightarrow> world \<Rightarrow> (error + tool_definition list) \<times> world" where
  "getToolDefinitions sys cfg w = getToolDefinitions_loop sys cfg [] w"

section \<open>The JavaScript built-ins the program calls\<close>

fun and_then :: "error + 'a \<Rightarrow> ('a \<Rightarrow> error + 'b) \<Rightarrow> error + 'b" where
  "and_then (Inl e) f = Inl e"
| "and_then (Inr x) f = f x"

fun JSON_parse :: "json_text \<Rightarrow> error + json" where
  "JSON_parse Malformed = Inl SyntaxError"
| "JSON_parse (Text v) = Inr v"

definition JSON_stringify :: "json \<Rightarrow> json_text" where
  "JSON_stringify v = Text v"

text \<open>
  \<^verbatim>\<open>Object.keys(v).length\<close>: \<^verbatim>\<open>null\<close> cannot be converted to an object, a number or a
  boolean has no own enumerable property, a string and an array have one per element.
\<close>

fun Object_keys_length :: "json \<Rightarrow> error + nat" where
  "Object_keys_length JNull = Inl TypeError"
| "Object_keys_length (JBool b) = Inr 0"
| "Object_keys_length (JNum n) = Inr 0"
| "Object_keys_length (JStr s) = Inr (length s)"
| "Object_keys_length (JArr xs) = Inr (length xs)"
| "Object_keys_length (JObj kvs) = Inr (length kvs)"

text \<open>
  \<^verbatim>\<open>obj[k] = v\<close> on the property list of an object: an existing property keeps its place,
  a new one goes last.
\<close>

fun assign :: "(string \<times> json) list \<Rightarrow> string \<Rightarrow> json \<Rightarrow> (string \<times> json) list" where
  "assign [] k v = [(k, v)]"
| "assign ((k', v') # kvs) k v = (if k' = k then (k, v) # kvs else (k', v') # assign kvs k v)"

text \<open>
  \<^verbatim>\<open>x[k] = v\<close> in strict mode (the file is a module), for the names the program assigns
  (\<^verbatim>\<open>path\<close>, \<^verbatim>\<open>source\<close>, \<^verbatim>\<open>destination\<close>, none of them an array index), seen through
  \<^verbatim>\<open>JSON.stringify\<close>: a named property put on an array is not serialised, and creating
  a property on a primitive or on \<^verbatim>\<open>null\<close> throws.
\<close>

fun set_property :: "json \<Rightarrow> string \<Rightarrow> json \<Rightarrow> error + json" where
  "set_property (JObj kvs) k v = Inr (JObj (assign kvs k v))"
| "set_property (JArr xs) k v = Inr (JArr xs)"
| "set_property JNull k v = Inl TypeError"
| "set_property (JBool b) k v = Inl TypeError"
| "set_property (JNum n) k v = Inl TypeError"
| "set_property (JStr s) k v = Inl TypeError"

text \<open>\<^verbatim>\<open>!x\<close>, where \<open>None\<close> is \<^verbatim>\<open>undefined\<close>.\<close>

fun falsy :: "json option \<Rightarrow> bool" where
  "falsy None = True"
| "falsy (Some JNull) = True"
| "falsy (Some (JBool b)) = (\<not> b)"
| "falsy (Some (JNum n)) = (n = 0)"
| "falsy (Some (JStr s)) = (s = [])"
| "falsy (Some (JArr xs)) = False"
| "falsy (Some (JObj kvs)) = False"

text \<open>
  \<^verbatim>\<open>String.prototype.trim\<close> removes the code units of WhiteSpace and LineTerminator from
  both ends: TAB, LF, VT, FF, CR, SPACE, NBSP, U+1680, U+2000 to U+200A, U+2028, U+2029,
  U+202F, U+205F, U+3000 and U+FEFF.
\<close>

definition is_white_space :: "16 word \<Rightarrow> bool" where
  "is_white_space c =
     (c = 0x0009 \<or> c = 0x000A \<or> c = 0x000B \<or> c = 0x000C \<or> c = 0x000D \<or> c = 0x0020 \<or>
      c = 0x00A0 \<or> c = 0x1680 \<or> (0x2000 \<le> c \<and> c \<le> 0x200A) \<or> c = 0x2028 \<or>
      c = 0x2029 \<or> c = 0x202F \<or> c = 0x205F \<or> c = 0x3000 \<or> c = 0xFEFF)"

definition trim :: "js_string \<Rightarrow> js_string" where
  "trim s = rev (dropWhile is_white_space (rev (dropWhile is_white_space s)))"

section \<open>chooseTool\<close>

record selection =
  sel_name :: string
  sel_arguments :: json

definition MODEL_CANDIDATES :: "string list" where
  "MODEL_CANDIDATES = [''gpt-3.5-turbo-0125'', ''gpt-4o-release'']"

definition default_path :: "system \<Rightarrow> string" where
  "default_path sys =
     (case DEFAULT_PATH sys of
        None \<Rightarrow> ''/Users/honjo2/Desktop''
      | Some p \<Rightarrow> if p = [] then ''/Users/honjo2/Desktop'' else p)"

text \<open>
  The block of \<^verbatim>\<open>index.ts\<close> that rewrites \<^verbatim>\<open>call.function.arguments\<close> when it is a string:
  parse it, put the default path in when the parsed value has no key, write it back.
\<close>

definition normalize_arguments :: "system \<Rightarrow> js_arguments \<Rightarrow> error + js_arguments" where
  "normalize_arguments sys a =
     (case a of
        Str t \<Rightarrow>
          and_then (JSON_parse t) (\<lambda>v.
          and_then (Object_keys_length v) (\<lambda>n.
          and_then (if n = 0 then set_property v ''path'' (JStr (default_path sys)) else Inr v)
            (\<lambda>v'. Inr (Str (JSON_stringify v')))))
      | Undefined \<Rightarrow> Inr a
      | Obj kvs \<Rightarrow> Inr a)"

text \<open>
  \<^verbatim>\<open>JSON.parse(call.function.arguments ?? '{}')\<close>. An object given to \<^verbatim>\<open>JSON.parse\<close> is
  first turned into the string \<^verbatim>\<open>[object Object]\<close>, which is not JSON.
\<close>

fun parse_arguments :: "js_arguments \<Rightarrow> error + json" where
  "parse_arguments Undefined = JSON_parse (Text (JObj []))"
| "parse_arguments (Str t) = JSON_parse t"
| "parse_arguments (Obj kvs) = Inl SyntaxError"

text \<open>What \<^verbatim>\<open>index.ts\<close> does with an accepted tool call, up to its \<^verbatim>\<open>return\<close>.\<close>

definition accept :: "system \<Rightarrow> fn_call \<Rightarrow> error + selection" where
  "accept sys call =
     and_then (normalize_arguments sys (fn_arguments call)) (\<lambda>a.
     and_then (parse_arguments a) (\<lambda>v.
     Inr \<lparr>sel_name = fn_name call, sel_arguments = v\<rparr>))"

text \<open>
  The same block in the earlier variant of the file. It tests the tool name, and reads
  \<^verbatim>\<open>arguments?.path\<close> and \<^verbatim>\<open>typeof arguments === 'object'\<close> on the value as it came:
  a string has no property \<^verbatim>\<open>path\<close> and is not an object.
\<close>

fun get_property :: "js_arguments \<Rightarrow> string \<Rightarrow> json option" where
  "get_property Undefined k = None"
| "get_property (Str t) k = None"
| "get_property (Obj kvs) k = map_of kvs k"

fun spread :: "js_arguments \<Rightarrow> (string \<times> json) list" where
  "spread Undefined = []"
| "spread (Str t) = []"
| "spread (Obj kvs) = kvs"

definition normalize_arguments_v1 :: "string \<Rightarrow> js_arguments \<Rightarrow> js_arguments" where
  "normalize_arguments_v1 nm a =
     (if nm = ''list_directory'' \<and> falsy (get_property a ''path'') then
        Str (JSON_stringify (JObj (assign (spread a) ''path'' (JStr ''/Users/honjo2/Desktop''))))
      else if nm = ''move_file'' then
        (let args0 = spread a;
             args1 = (if falsy (map_of args0 ''source'')
                      then assign args0 ''source'' (JStr ''/Users/honjo2/Desktop/chromebackup'')
                      else args0);
             args2 = (if falsy (map_of args1 ''destination'')
                      then assign args1 ''destination'' (JStr ''/Users/honjo2/Desktop/chromebackup2'')
                      else args1)
         in Str (JSON_stringify (JObj args2)))
      else a)"

definition accept_v1 :: "fn_call \<Rightarrow> error + selection" where
  "accept_v1 call =
     and_then (parse_arguments (normalize_arguments_v1 (fn_name call) (fn_arguments call))) (\<lambda>v.
     Inr \<lparr>sel_name = fn_name call, sel_arguments = v\<rparr>)"

text \<open>\<^verbatim>\<open>response.choices[0].message.tool_calls?.[0]\<close>, once \<^verbatim>\<open>choices[0]\<close> exists.\<close>

definition first_tool_call :: "choice \<Rightarrow> fn_call option" where
  "first_tool_call c =
     (case tool_calls c of
        None \<Rightarrow> None
      | Some [] \<Rightarrow> None
      | Some (call # others) \<Rightarrow> Some call)"

definition offered :: "tool_definition list \<Rightarrow> tool list" where
  "offered toolDefinitions =
     map (\<lambda>d. \<lparr>name = name d, description = description d, parameters = parameters d\<rparr>)
       toolDefinitions"

text \<open>
  The \<^verbatim>\<open>for\<close> loop over the models. The two variants of the file share it; they differ
  in the block applied to an accepted call, the first argument here.
\<close>

fun chooseTool_loop ::
  "(fn_call \<Rightarrow> error + selection) \<Rightarrow> system \<Rightarrow> string \<Rightarrow> tool_definition list
     \<Rightarrow> string list \<Rightarrow> world \<Rightarrow> (error + selection) \<times> world" where
  "chooseTool_loop block sys userQuestion toolDefinitions [] w = (Inl NoToolProposed, w)"
| "chooseTool_loop block sys userQuestion toolDefinitions (model # models) w =
     (let n = asked w;
          w1 = w\<lparr>asked := Suc n, trace := trace w @ [Asked n model]\<rparr>
      in case create sys n model userQuestion (offered toolDefinitions) of
           Rejected \<Rightarrow> (Inl APIError, w1)
         | Completion [] \<Rightarrow> (Inl TypeError, w1)
         | Completion (c # cs) \<Rightarrow>
             (case first_tool_call c of
                Some call \<Rightarrow> (block call, w1)
              | None \<Rightarrow> chooseTool_loop block sys userQuestion toolDefinitions models w1))"

definition chooseTool ::
  "system \<Rightarrow> mcp_servers \<Rightarrow> string \<Rightarrow> world \<Rightarrow> (error + selection) \<times> world" where
  "chooseTool sys cfg userQuestion w =
     (case getToolDefinitions sys cfg w of
        (Inl e, w1) \<Rightarrow> (Inl e, w1)
      | (Inr toolDefinitions, w1) \<Rightarrow>
          chooseTool_loop (accept sys) sys userQuestion toolDefinitions MODEL_CANDIDATES w1)"

definition chooseTool_v1 ::
  "system \<Rightarrow> mcp_servers \<Rightarrow> string \<Rightarrow> world \<Rightarrow> (error + selection) \<times> world" where
  "chooseTool_v1 sys cfg userQuestion w =
     (case getToolDefinitions sys cfg w of
        (Inl e, w1) \<Rightarrow> (Inl e, w1)
      | (Inr toolDefinitions, w1) \<Rightarrow>
          chooseTool_loop accept_v1 sys userQuestion toolDefinitions MODEL_CANDIDATES w1)"

section \<open>callMcpTool and main\<close>

fun CallToolResultSchema_parse :: "call_tool_raw \<Rightarrow> error + content list" where
  "CallToolResultSchema_parse NotAResult = Inl ZodError"
| "CallToolResultSchema_parse (Envelope cs) = Inr cs"

text \<open>
  \<^verbatim>\<open>toolDefinitions.find(...)!\<close> yields \<^verbatim>\<open>undefined\<close> when no entry has the name, and
  reading \<^verbatim>\<open>def.serverKey\<close> then throws a TypeError. The function has no
  \<^verbatim>\<open>transport.close()\<close>.
\<close>

definition callMcpTool ::
  "system \<Rightarrow> mcp_servers \<Rightarrow> string \<Rightarrow> json \<Rightarrow> world \<Rightarrow> (error + js_string list) \<times> world" where
  "callMcpTool sys cfg nm arguments w =
     (case getToolDefinitions sys cfg w of
        (Inl e, w1) \<Rightarrow> (Inl e, w1)
      | (Inr toolDefinitions, w1) \<Rightarrow>
          (case find (\<lambda>d. name d = nm) toolDefinitions of
             None \<Rightarrow> (Inl TypeError, w1)
           | Some def \<Rightarrow>
               (case map_of cfg (serverKey def) of
                  None \<Rightarrow> (Inl (ServerConfigNotFound (serverKey def)), w1)
                | Some server \<Rightarrow>
                    (let pid = spawned w1;
                         client = spawn sys pid server;
                         w2 = w1\<lparr>spawned := Suc pid\<rparr>
                     in if \<not> connects client then (Inl TransportError, w2)
                        else
                          (let w3 = w2\<lparr>trace := trace w2 @
                                 [Opened pid (serverKey def), Called pid (toolName def) arguments]\<rparr>
                           in case callTool client (toolName def) arguments of
                                None \<Rightarrow> (Inl TransportError, w3)
                              | Some raw \<Rightarrow>
                                  (case CallToolResultSchema_parse raw of
                                     Inl e \<Rightarrow> (Inl e, w3)
                                   | Inr parsed \<Rightarrow>
                                       (Inr (map (\<lambda>c. trim (ctext c))
                                               (filter (\<lambda>c. ctype c = ''text'') parsed)),
                                        w3)))))))"

definition executeTool ::
  "system \<Rightarrow> mcp_servers \<Rightarrow> string \<Rightarrow> json \<Rightarrow> world \<Rightarrow> (error + js_string list) \<times> world" where
  "executeTool sys cfg tool_name toolArgs w = callMcpTool sys cfg tool_name toolArgs w"

definition main ::
  "system \<Rightarrow> mcp_servers \<Rightarrow> string \<Rightarrow> world \<Rightarrow> (error + js_string list) \<times> world" where
  "main sys cfg question w =
     (case chooseTool sys cfg question w of
        (Inl e, w1) \<Rightarrow> (Inl e, w1)
      | (Inr sel, w1) \<Rightarrow> executeTool sys cfg (sel_name sel) (sel_arguments sel) w1)"

section \<open>Reading a trace\<close>

text \<open>The sessions that are open after a sequence of events, oldest first.\<close>

fun open_after :: "nat list \<Rightarrow> event list \<Rightarrow> nat list" where
  "open_after os [] = os"
| "open_after os (Opened p k # es) = open_after (os @ [p]) es"
| "open_after os (Closed p # es) = open_after (removeAll p os) es"
| "open_after os (Listed p # es) = open_after os es"
| "open_after os (Called p t a # es) = open_after os es"
| "open_after os (Asked n m # es) = open_after os es"

definition open_sessions :: "event list \<Rightarrow> nat list" where
  "open_sessions es = open_after [] es"

fun opens :: "event list \<Rightarrow> nat" where
  "opens [] = 0"
| "opens (Opened p k # es) = Suc (opens es)"
| "opens (e # es) = opens es"

fun closes :: "event list \<Rightarrow> nat" where
  "closes [] = 0"
| "closes (Closed p # es) = Suc (closes es)"
| "closes (e # es) = closes es"

fun listings :: "event list \<Rightarrow> nat" where
  "listings [] = 0"
| "listings (Listed p # es) = Suc (listings es)"
| "listings (e # es) = listings es"

fun asked_models :: "event list \<Rightarrow> string list" where
  "asked_models [] = []"
| "asked_models (Asked n m # es) = m # asked_models es"
| "asked_models (e # es) = asked_models es"

text \<open>The events of a listing pass that goes through: one session after the other.\<close>

fun session_events :: "nat \<Rightarrow> mcp_servers \<Rightarrow> event list" where
  "session_events s [] = []"
| "session_events s ((key, c) # rest) =
     [Opened s key, Listed s, Closed s] @ session_events (Suc s) rest"

text \<open>
  The result the specification describes for a content list: the text segments in their
  order, each trimmed; a segment of another type is passed over.
\<close>

fun text_segments :: "content list \<Rightarrow> js_string list" where
  "text_segments [] = []"
| "text_segments (TextContent t # cs) = trim t # text_segments cs"
| "text_segments (c # cs) = text_segments cs"

text \<open>
  The events of a listing pass on every path: a backend that does not connect ends the
  pass with no session of its own, a backend whose listing is rejected ends it with that
  session still open, and any other backend is opened, listed and closed.
\<close>

fun pass_events :: "system \<Rightarrow> nat \<Rightarrow> mcp_servers \<Rightarrow> event list" where
  "pass_events sys s [] = []"
| "pass_events sys s ((key, c) # rest) =
     (if \<not> connects (spawn sys s c) then []
      else (case listTools (spawn sys s c) of
              None \<Rightarrow> [Opened s key, Listed s]
            | Some tools \<Rightarrow> [Opened s key, Listed s, Closed s] @ pass_events sys (Suc s) rest))"

text \<open>
  A monitor for "one session at a time": a session is opened only while none is open,
  and a request or a close goes to the session that is open.
\<close>

fun one_at_a_time :: "nat option \<Rightarrow> event list \<Rightarrow> bool" where
  "one_at_a_time cur [] = True"
| "one_at_a_time cur (Opened p k # es) = (cur = None \<and> one_at_a_time (Some p) es)"
| "one_at_a_time cur (Listed p # es) = (cur = Some p \<and> one_at_a_time cur es)"
| "one_at_a_time cur (Closed p # es) = (cur = Some p \<and> one_at_a_time None es)"
| "one_at_a_time cur (Called p t a # es) = (cur = Some p \<and> one_at_a_time cur es)"
| "one_at_a_time cur (Asked n m # es) = one_at_a_time cur es"

text \<open>
  The catalog the specification describes, for the backends \<open>cfg\<close> and the tool lists
  \<open>tss\<close> they answered: backend after backend, each backend's tools in the order it
  listed them, each tagged with the key of its backend.
\<close>

definition catalog_of :: "mcp_servers \<Rightarrow> tool list list \<Rightarrow> tool_definition list" where
  "catalog_of cfg tss = concat (map2 (\<lambda>kc ts. map (tag (fst kc)) ts) cfg tss)"

text \<open>The requests to the models \<open>ms\<close> in their order, the first one numbered \<open>n\<close>.\<close>

fun asks :: "nat \<Rightarrow> string list \<Rightarrow> event list" where
  "asks n [] = []"
| "asks n (model # models) = Asked n model # asks (Suc n) models"

text \<open>
  A completion misses when it has a first choice without a tool call; it proposes
  \<open>call\<close> when the first tool call of its first choice is \<open>call\<close>.
\<close>

definition misses :: "completion \<Rightarrow> bool" where
  "misses r = (case r of Completion (c # cs) \<Rightarrow> first_tool_call c = None | _ \<Rightarrow> False)"

definition proposes :: "completion \<Rightarrow> fn_call \<Rightarrow> bool" where
  "proposes r call =
     (case r of Completion (c # cs) \<Rightarrow> first_tool_call c = Some call | _ \<Rightarrow> False)"

section \<open>Example runs\<close>

definition filesystem :: server_config where
  "filesystem =
     \<lparr>command = ''npx'',
      args = [''-y'', ''@modelcontextprotocol/server-filesystem'', ''/Users/honjo2/Desktop''],
      env = None\<rparr>"

definition clock :: server_config where
  "clock = \<lparr>command = ''uvx'', args = [''mcp-server-time''], env = None\<rparr>"

definition list_directory :: tool where
  "list_directory =
     \<lparr>name = ''list_directory'', description = ''List the entries of a directory'',
      parameters = JObj [(''type'', JStr ''object'')]\<rparr>"

definition move_file :: tool where
  "move_file =
     \<lparr>name = ''move_file'', description = ''Move or rename a file'',
      parameters = JObj [(''type'', JStr ''object'')]\<rparr>"

definition get_current_time :: tool where
  "get_current_time =
     \<lparr>name = ''get_current_time'', description = ''Tell the time'',
      parameters = JObj [(''type'', JStr ''object'')]\<rparr>"

text \<open>A reply with the texts \<^verbatim>\<open>" a.txt\n"\<close> and \<^verbatim>\<open>"b"\<close> around an image.\<close>

definition desktop_listing :: "content list" where
  "desktop_listing =
     [TextContent [0x20, 0x61, 0x2E, 0x74, 0x78, 0x74, 0x0A], ImageContent, TextContent [0x62]]"

definition fs_process :: process where
  "fs_process =
     \<lparr>connects = True, listTools = Some [list_directory, move_file],
      callTool = (\<lambda>t a. Some (Envelope desktop_listing))\<rparr>"

definition clock_process :: process where
  "clock_process =
     \<lparr>connects = True, listTools = Some [get_current_time],
      callTool = (\<lambda>t a. Some (Envelope []))\<rparr>"

definition deaf_process :: process where
  "deaf_process =
     \<lparr>connects = True, listTools = None, callTool = (\<lambda>t a. None)\<rparr>"

text \<open>
  Two backends. The first model answers in prose, the second proposes
  \<^verbatim>\<open>list_directory\<close> with the arguments \<^verbatim>\<open>{}\<close>.
\<close>

definition demo :: system where
  "demo =
     \<lparr>spawn = (\<lambda>n c. if command c = ''npx'' then fs_process else clock_process),
      create = (\<lambda>n model q tools.
        if n = 0 then Completion [\<lparr>tool_calls = None\<rparr>]
        else Completion
               [\<lparr>tool_calls =
                   Some [\<lparr>fn_name = ''list_directory'', fn_arguments = Str (Text (JObj []))\<rparr>]\<rparr>]),
      DEFAULT_PATH = None\<rparr>"

text \<open>The same, but the second backend rejects \<^verbatim>\<open>listTools\<close>.\<close>

definition deaf :: system where
  "deaf = demo\<lparr>spawn := (\<lambda>n c. if command c = ''npx'' then fs_process else deaf_process)\<rparr>"

text \<open>
  The same as \<open>demo\<close>, but the file system backend lists \<^verbatim>\<open>move_file\<close> only from its
  second start on, and as its first tool.
\<close>

definition shifting :: system where
  "shifting =
     demo\<lparr>spawn := (\<lambda>n c.
       if command c = ''npx''
       then (if n = 0 then fs_process\<lparr>listTools := Some [list_directory]\<rparr>
             else fs_process\<lparr>listTools := Some [move_file, list_directory]\<rparr>)
       else clock_process)\<rparr>"

definition demo_cfg :: mcp_servers where
  "demo_cfg = [(''filesystem'', filesystem), (''time'', clock)]"

definition start :: world where
  "start = \<lparr>spawned = 0, asked = 0, trace = []\<rparr>"

text \<open>Neither model proposes a tool.\<close>

definition mute :: system where
  "mute = demo\<lparr>create := (\<lambda>n model q tools. Completion [\<lparr>tool_calls = None\<rparr>])\<rparr>"

text \<open>The first model proposes \<^verbatim>\<open>list_directory\<close> with the path \<^verbatim>\<open>/tmp\<close>.\<close>

definition pathful :: system where
  "pathful =
     demo\<lparr>create := (\<lambda>n model q tools.
       Completion
         [\<lparr>tool_calls =
             Some [\<lparr>fn_name = ''list_directory'',
                    fn_arguments = Str (Text (JObj [(''path'', JStr ''/tmp'')]))\<rparr>]\<rparr>])\<rparr>"

text \<open>The two catalogs that the backends of \<open>shifting\<close> give, one pass after the other.\<close>

definition shifting_catalog_1 :: "tool_definition list" where
  "shifting_catalog_1 = [tag ''filesystem'' list_directory, tag ''time'' get_current_time]"

definition shifting_catalog_2 :: "tool_definition list" where
  "shifting_catalog_2 =
     [tag ''filesystem'' move_file, tag ''filesystem'' list_directory,
      tag ''time'' get_current_time]"

section \<open>Lemmas\<close>

subsection \<open>The listing pass\<close>

lemma loop_trace:
  "trace (snd (getToolDefinitions_loop sys cfg acc w)) = trace w @ pass_events sys (spawned w) cfg"
  by (induction cfg arbitrary: acc w) (auto simp: Let_def split: option.splits)

lemma loop_asked:
  "asked (snd (getToolDefinitions_loop sys cfg acc w)) = asked w"
  by (induction cfg arbitrary: acc w) (auto simp: Let_def split: option.splits)

lemma loop_error:
  "getToolDefinitions_loop sys cfg acc w = (Inl e, w') \<Longrightarrow> e = TransportError"
  by (induction cfg arbitrary: acc w) (auto simp: Let_def split: option.splits if_splits)

lemma loop_success:
  "length tss = length cfg \<Longrightarrow>
   (\<forall>i<length cfg. connects (spawn sys (spawned w + i) (snd (cfg ! i))) \<and>
        listTools (spawn sys (spawned w + i) (snd (cfg ! i))) = Some (tss ! i)) \<Longrightarrow>
   getToolDefinitions_loop sys cfg acc w =
     (Inr (acc @ concat (map2 (\<lambda>kc ts. map (tag (fst kc)) ts) cfg tss)),
      w\<lparr>spawned := spawned w + length cfg,
        trace := trace w @ session_events (spawned w) cfg\<rparr>)"
proof (induction cfg arbitrary: tss acc w)
  case Nil
  then show ?case by simp
next
  case (Cons a cfg)
  obtain key c where a: "a = (key, c)" by (cases a)
  obtain l ls where l: "tss = l # ls" using Cons.prems(1) by (cases tss) auto
  have h0: "connects (spawn sys (spawned w) c)" "listTools (spawn sys (spawned w) c) = Some l"
    using Cons.prems(2)[rule_format, of 0] by (auto simp: a l)
  let ?w = "w\<lparr>spawned := Suc (spawned w), trace := trace w @ [Opened (spawned w) key, Listed (spawned w), Closed (spawned w)]\<rparr>"
  have hs: "\<forall>i<length cfg. connects (spawn sys (spawned ?w + i) (snd (cfg ! i))) \<and>
        listTools (spawn sys (spawned ?w + i) (snd (cfg ! i))) = Some (ls ! i)"
  proof (intro allI impI)
    fix i assume "i < length cfg"
    then show "connects (spawn sys (spawned ?w + i) (snd (cfg ! i))) \<and>
        listTools (spawn sys (spawned ?w + i) (snd (cfg ! i))) = Some (ls ! i)"
      using Cons.prems(2)[rule_format, of "Suc i"] by (simp add: a l)
  qed
  have len: "length ls = length cfg" using Cons.prems(1) by (simp add: l)
  show ?case
    using Cons.IH[OF len hs, of "acc @ map (tag key) l"] h0
    by (simp add: a l Let_def)
qed

lemma loop_Inr:
  "getToolDefinitions_loop sys cfg acc w = (Inr defs, w1) \<Longrightarrow>
   w1 = w\<lparr>spawned := spawned w + length cfg,
          trace := trace w @ session_events (spawned w) cfg\<rparr>"
proof (induction cfg arbitrary: acc w)
  case Nil
  then show ?case by simp
next
  case (Cons a cfg)
  obtain key c where a: "a = (key, c)" by (cases a)
  from Cons.prems obtain ts where
    ts: "listTools (spawn sys (spawned w) c) = Some ts" and
    con: "connects (spawn sys (spawned w) c)" and
    rest: "getToolDefinitions_loop sys cfg (acc @ map (tag key) ts)
        (w\<lparr>spawned := Suc (spawned w),
           trace := trace w @ [Opened (spawned w) key, Listed (spawned w), Closed (spawned w)]\<rparr>) =
      (Inr defs, w1)"
    by (auto simp: a Let_def split: if_splits option.splits)
  show ?case using Cons.IH[OF rest] by (simp add: a)
qed

lemma getToolDefinitions_asked:
  "getToolDefinitions sys cfg w = (r, w1) \<Longrightarrow> asked w1 = asked w"
  using loop_asked[of sys cfg "[]" w] by (simp add: getToolDefinitions_def)

lemma getToolDefinitions_trace:
  "getToolDefinitions sys cfg w = (r, w1) \<Longrightarrow> trace w1 = trace w @ pass_events sys (spawned w) cfg"
  using loop_trace[of sys cfg "[]" w] by (simp add: getToolDefinitions_def)

lemma getToolDefinitions_error:
  "getToolDefinitions sys cfg w = (Inl e, w1) \<Longrightarrow> e = TransportError"
  using loop_error[of sys cfg "[]" w e w1] by (simp add: getToolDefinitions_def)

lemma getToolDefinitions_Inr:
  "getToolDefinitions sys cfg w = (Inr defs, w1) \<Longrightarrow>
   w1 = w\<lparr>spawned := spawned w + length cfg,
          trace := trace w @ session_events (spawned w) cfg\<rparr>"
  unfolding getToolDefinitions_def by (rule loop_Inr)

lemma length_catalog_of:
  "length cfg = length tss \<Longrightarrow> length (catalog_of cfg tss) = sum_list (map length tss)"
  unfolding catalog_of_def by (induction cfg tss rule: list_induct2) auto

lemma serverKey_catalog_of:
  "length cfg = length tss \<Longrightarrow>
   map serverKey (catalog_of cfg tss) = concat (map2 (\<lambda>kc ts. replicate (length ts) (fst kc)) cfg tss)"
  unfolding catalog_of_def by (induction cfg tss rule: list_induct2) (auto simp: tag_def o_def map_replicate_const)

lemma name_catalog_of:
  "length cfg = length tss \<Longrightarrow> map name (catalog_of cfg tss) = concat (map (map name) tss)"
  unfolding catalog_of_def by (induction cfg tss rule: list_induct2) (auto simp: tag_def)

subsection \<open>Traces\<close>

lemma pass_one_at_a_time: "one_at_a_time None (pass_events sys s cfg)"
  by (induction cfg arbitrary: s) (auto split: option.splits)

lemma pass_prefix_open:
  "length (open_after [] (take n (pass_events sys s cfg))) \<le> 1"
proof (induction cfg arbitrary: s n)
  case Nil
  then show ?case by simp
next
  case (Cons a cfg)
  obtain key c where a: "a = (key, c)" by (cases a)
  show ?case
  proof (cases "connects (spawn sys s c)")
    case False
    then show ?thesis by (simp add: a)
  next
    case True
    show ?thesis
    proof (cases "listTools (spawn sys s c)")
      case None
      then show ?thesis using True by (simp add: a take_Cons' )
    next
      case (Some ts)
      then show ?thesis using True Cons.IH[of "n - Suc (Suc (Suc 0))" "Suc s"] by (simp add: a take_Cons')
    qed
  qed
qed

lemma open_after_append: "open_after os (xs @ ys) = open_after (open_after os xs) ys"
  by (induction os xs rule: open_after.induct) auto

lemma open_after_session_events:
  "(\<forall>p\<in>set os. p < s) \<Longrightarrow> open_after os (session_events s cfg) = os"
proof (induction cfg arbitrary: s)
  case Nil
  then show ?case by simp
next
  case (Cons a cfg)
  obtain key c where a: "a = (key, c)" by (cases a)
  have "s \<notin> set os" using Cons.prems by auto
  then have r: "removeAll s os = os" by simp
  have "\<forall>p\<in>set os. p < Suc s" using Cons.prems by auto
  then show ?case using Cons.IH[of "Suc s"] by (simp add: a r)
qed

lemma open_sessions_session_events: "open_sessions (session_events s cfg) = []"
  by (simp add: open_sessions_def open_after_session_events)

lemma opens_append: "opens (xs @ ys) = opens xs + opens ys"
  by (induction xs rule: opens.induct) auto

lemma closes_append: "closes (xs @ ys) = closes xs + closes ys"
  by (induction xs rule: closes.induct) auto

lemma listings_append: "listings (xs @ ys) = listings xs + listings ys"
  by (induction xs rule: listings.induct) auto

lemma opens_session_events: "opens (session_events s cfg) = length cfg"
  by (induction cfg arbitrary: s) auto

lemma closes_session_events: "closes (session_events s cfg) = length cfg"
  by (induction cfg arbitrary: s) auto

lemma listings_session_events: "listings (session_events s cfg) = length cfg"
  by (induction cfg arbitrary: s) auto

lemma asked_models_append: "asked_models (xs @ ys) = asked_models xs @ asked_models ys"
  by (induction xs rule: asked_models.induct) auto

lemma asked_models_asks: "asked_models (asks n ms) = ms"
  by (induction ms arbitrary: n) auto

lemma asked_models_pass: "asked_models (pass_events sys s cfg) = []"
  by (induction cfg arbitrary: s) (auto split: option.splits)

lemma opens_asks: "opens (asks n ms) = 0"
  by (induction ms arbitrary: n) auto

lemma listings_asks: "listings (asks n ms) = 0"
  by (induction ms arbitrary: n) auto

subsection \<open>The model loop\<close>

lemma distinct_MODEL_CANDIDATES: "distinct MODEL_CANDIDATES"
  by (simp add: MODEL_CANDIDATES_def)

lemma loop_hit:
  "k < length models \<Longrightarrow>
   (\<forall>i<k. misses (create sys (asked w + i) (models ! i) q (offered defs))) \<Longrightarrow>
   proposes (create sys (asked w + k) (models ! k) q (offered defs)) call \<Longrightarrow>
   chooseTool_loop block sys q defs models w =
     (block call, w\<lparr>asked := asked w + Suc k, trace := trace w @ asks (asked w) (take (Suc k) models)\<rparr>)"
proof (induction models arbitrary: k w)
  case Nil
  then show ?case by simp
next
  case (Cons m models)
  show ?case
  proof (cases k)
    case 0
    then show ?thesis using Cons.prems(3)
      by (auto simp: proposes_def Let_def split: completion.splits list.splits)
  next
    case (Suc j)
    let ?w = "w\<lparr>asked := Suc (asked w), trace := trace w @ [Asked (asked w) m]\<rparr>"
    have m0: "misses (create sys (asked w) m q (offered defs))"
      using Cons.prems(2)[rule_format, of 0] Suc by simp
    have j: "j < length models" using Cons.prems(1) Suc by simp
    have ms: "\<forall>i<j. misses (create sys (asked ?w + i) (models ! i) q (offered defs))"
    proof (intro allI impI)
      fix i assume "i < j"
      then show "misses (create sys (asked ?w + i) (models ! i) q (offered defs))"
        using Cons.prems(2)[rule_format, of "Suc i"] Suc by simp
    qed
    have p: "proposes (create sys (asked ?w + j) (models ! j) q (offered defs)) call"
      using Cons.prems(3) Suc by simp
    show ?thesis
      using Cons.IH[OF j ms p] m0 Suc
      by (auto simp: misses_def Let_def split: completion.splits list.splits)
  qed
qed

lemma loop_all_miss:
  "(\<forall>i<length models. misses (create sys (asked w + i) (models ! i) q (offered defs))) \<Longrightarrow>
   chooseTool_loop block sys q defs models w =
     (Inl NoToolProposed,
      w\<lparr>asked := asked w + length models, trace := trace w @ asks (asked w) models\<rparr>)"
proof (induction models arbitrary: w)
  case Nil
  then show ?case by simp
next
  case (Cons m models)
  let ?w = "w\<lparr>asked := Suc (asked w), trace := trace w @ [Asked (asked w) m]\<rparr>"
  have m0: "misses (create sys (asked w) m q (offered defs))"
    using Cons.prems[rule_format, of 0] by simp
  have ms: "\<forall>i<length models. misses (create sys (asked ?w + i) (models ! i) q (offered defs))"
  proof (intro allI impI)
    fix i assume "i < length models"
    then show "misses (create sys (asked ?w + i) (models ! i) q (offered defs))"
      using Cons.prems[rule_format, of "Suc i"] by simp
  qed
  show ?case
    using Cons.IH[OF ms] m0
    by (auto simp: misses_def Let_def split: completion.splits list.splits)
qed

lemma loop_NoToolProposed:
  "(\<And>call. block call \<noteq> Inl NoToolProposed) \<Longrightarrow>
   fst (chooseTool_loop block sys q defs models w) = Inl NoToolProposed \<Longrightarrow>
   (\<forall>i<length models. misses (create sys (asked w + i) (models ! i) q (offered defs)))"
proof (induction models arbitrary: w)
  case Nil
  then show ?case by simp
next
  case (Cons m models)
  let ?w = "w\<lparr>asked := Suc (asked w), trace := trace w @ [Asked (asked w) m]\<rparr>"
  from Cons.prems(2) obtain c cs where
    r: "create sys (asked w) m q (offered defs) = Completion (c # cs)" and
    f: "first_tool_call c = None" and
    rest: "fst (chooseTool_loop block sys q defs models ?w) = Inl NoToolProposed"
    using Cons.prems(1)
    by (auto simp: Let_def split: completion.splits list.splits option.splits)
  have ih: "\<forall>i<length models. misses (create sys (asked ?w + i) (models ! i) q (offered defs))"
    using Cons.IH[OF Cons.prems(1) rest] .
  show ?case
  proof (intro allI impI)
    fix i assume i: "i < length (m # models)"
    show "misses (create sys (asked w + i) ((m # models) ! i) q (offered defs))"
    proof (cases i)
      case 0
      then show ?thesis using r f by (simp add: misses_def)
    next
      case (Suc j)
      then show ?thesis using ih[rule_format, of j] i by simp
    qed
  qed
qed

lemma loop_asks_prefix:
  "\<exists>m\<le>length models. trace (snd (chooseTool_loop block sys q defs models w)) =
       trace w @ asks (asked w) (take m models)"
proof (induction models arbitrary: w)
  case Nil
  then show ?case by simp
next
  case (Cons a models)
  let ?w = "w\<lparr>asked := Suc (asked w), trace := trace w @ [Asked (asked w) a]\<rparr>"
  obtain m where m: "m \<le> length models"
    "trace (snd (chooseTool_loop block sys q defs models ?w)) = trace ?w @ asks (asked ?w) (take m models)"
    using Cons.IH[of ?w] by auto
  have one: "trace ?w = trace w @ asks (asked w) (take (Suc 0) (a # models))" by simp
  have more: "trace ?w @ asks (asked ?w) (take m models) = trace w @ asks (asked w) (take (Suc m) (a # models))"
    by simp
  show ?case
  proof (cases "create sys (asked w) a q (offered defs)")
    case Rejected
    then show ?thesis using one by (intro exI[of _ "Suc 0"]) (simp add: Let_def)
  next
    case (Completion cs)
    show ?thesis
    proof (cases cs)
      case Nil
      then show ?thesis using one Completion by (intro exI[of _ "Suc 0"]) (simp add: Let_def)
    next
      case (Cons c cs')
      show ?thesis
      proof (cases "first_tool_call c")
        case None
        then show ?thesis using m more Completion Cons
          by (intro exI[of _ "Suc m"]) (simp add: Let_def)
      next
        case (Some call)
        then show ?thesis using one Completion Cons
          by (intro exI[of _ "Suc 0"]) (simp add: Let_def)
      qed
    qed
  qed
qed

lemma loop_spawned:
  "spawned (snd (chooseTool_loop block sys q defs models w)) = spawned w"
proof (induction models arbitrary: w)
  case Nil
  then show ?case by simp
next
  case (Cons m models)
  show ?case
    using Cons.IH[of "w\<lparr>asked := Suc (asked w), trace := trace w @ [Asked (asked w) m]\<rparr>"]
    by (simp add: Let_def split: completion.splits list.splits option.splits)
qed

lemma chooseTool_loop_models:
  "\<exists>m\<le>length models.
     asked_models (trace (snd (chooseTool_loop block sys q defs models w1))) =
       asked_models (trace w1) @ take m models"
proof -
  obtain m where "m \<le> length models"
    "trace (snd (chooseTool_loop block sys q defs models w1)) = trace w1 @ asks (asked w1) (take m models)"
    using loop_asks_prefix[of models block sys q defs w1] by auto
  then show ?thesis
    by (intro exI[of _ m]) (simp add: asked_models_append asked_models_asks)
qed

lemma chooseTool_loop_NoToolProposed_iff:
  assumes "\<And>call. block call \<noteq> Inl NoToolProposed"
  shows "fst (chooseTool_loop block sys q defs models w1) = Inl NoToolProposed \<longleftrightarrow>
     (\<forall>i<length models. misses (create sys (asked w1 + i) (models ! i) q (offered defs)))"
proof
  assume "fst (chooseTool_loop block sys q defs models w1) = Inl NoToolProposed"
  then show "\<forall>i<length models. misses (create sys (asked w1 + i) (models ! i) q (offered defs))"
    by (rule loop_NoToolProposed[OF assms])
next
  assume "\<forall>i<length models. misses (create sys (asked w1 + i) (models ! i) q (offered defs))"
  then show "fst (chooseTool_loop block sys q defs models w1) = Inl NoToolProposed"
    by (simp add: loop_all_miss)
qed

lemma chooseTool_loop_NoToolProposed_models:
  assumes "\<And>call. block call \<noteq> Inl NoToolProposed"
      and "fst (chooseTool_loop block sys q defs models w1) = Inl NoToolProposed"
  shows "asked_models (trace (snd (chooseTool_loop block sys q defs models w1))) =
           asked_models (trace w1) @ models"
proof -
  have "\<forall>i<length models. misses (create sys (asked w1 + i) (models ! i) q (offered defs))"
    by (rule loop_NoToolProposed[OF assms])
  then have "chooseTool_loop block sys q defs models w1 =
     (Inl NoToolProposed,
      w1\<lparr>asked := asked w1 + length models, trace := trace w1 @ asks (asked w1) models\<rparr>)"
    by (rule loop_all_miss)
  then show ?thesis
    by (simp add: asked_models_append asked_models_asks)
qed

subsection \<open>Accepting a call\<close>

text \<open>
  The current file keeps every argument the model gave: it adds \<^verbatim>\<open>path\<close> only to an
  object without keys.
\<close>

lemma and_then_Inl_iff: "and_then r f = Inl e \<longleftrightarrow> (r = Inl e \<or> (\<exists>x. r = Inr x \<and> f x = Inl e))"
  by (cases r) auto

lemma Object_keys_length_error: "Object_keys_length v = Inl e \<Longrightarrow> e = TypeError"
  by (cases v) auto

lemma set_property_error: "set_property v k x = Inl e \<Longrightarrow> e = TypeError"
  by (cases v) auto

lemma JSON_parse_error: "JSON_parse t = Inl e \<Longrightarrow> e = SyntaxError"
  by (cases t) auto

lemma parse_arguments_error: "parse_arguments a = Inl e \<Longrightarrow> e = SyntaxError"
  by (cases a) (auto dest: JSON_parse_error)

lemma accept_error: "accept sys call = Inl e \<Longrightarrow> e = SyntaxError \<or> e = TypeError"
  unfolding accept_def normalize_arguments_def
  by (auto simp: and_then_Inl_iff JSON_stringify_def
      dest: JSON_parse_error Object_keys_length_error set_property_error parse_arguments_error
      split: js_arguments.splits if_splits)

lemma accept_not_NoToolProposed: "accept sys call \<noteq> Inl NoToolProposed"
  using accept_error[of sys call NoToolProposed] by auto

lemma accept_v1_not_NoToolProposed: "accept_v1 call \<noteq> Inl NoToolProposed"
  unfolding accept_v1_def
  by (auto simp: and_then_Inl_iff dest: parse_arguments_error)

lemma accept_object:
  "accept sys \<lparr>fn_name = nm, fn_arguments = Str (Text (JObj kvs))\<rparr> =
     Inr \<lparr>sel_name = nm,
          sel_arguments = JObj (if kvs = [] then [(''path'', JStr (default_path sys))] else kvs)\<rparr>"
  by (cases kvs) (simp_all add: accept_def normalize_arguments_def JSON_stringify_def)

lemma accept_idem:
  "accept sys \<lparr>fn_name = nm, fn_arguments = Str t\<rparr> = Inr sel \<Longrightarrow>
   accept sys \<lparr>fn_name = nm, fn_arguments = Str (JSON_stringify (sel_arguments sel))\<rparr> = Inr sel"
proof (cases t)
  case Malformed
  assume "accept sys \<lparr>fn_name = nm, fn_arguments = Str t\<rparr> = Inr sel"
  then show ?thesis using Malformed by (simp add: accept_def normalize_arguments_def)
next
  case (Text v)
  assume a: "accept sys \<lparr>fn_name = nm, fn_arguments = Str t\<rparr> = Inr sel"
  show ?thesis
  proof (cases v)
    case (JObj kvs)
    then show ?thesis using a Text accept_object[of sys nm kvs]
        accept_object[of sys nm "[(''path'', JStr (default_path sys))]"] accept_object[of sys nm kvs]
      by (auto simp: JSON_stringify_def split: if_splits)
  next
    case (JArr xs)
    then show ?thesis using a Text
      by (cases xs) (auto simp: accept_def normalize_arguments_def JSON_stringify_def)
  next
    case (JStr s)
    then show ?thesis using a Text
      by (cases s) (auto simp: accept_def normalize_arguments_def JSON_stringify_def)
  qed (use a Text in \<open>auto simp: accept_def normalize_arguments_def JSON_stringify_def\<close>)
qed

lemma accept_v1_idem:
  "accept_v1 \<lparr>fn_name = nm, fn_arguments = Str t\<rparr> = Inr sel \<Longrightarrow>
   accept_v1 \<lparr>fn_name = nm, fn_arguments = Str (JSON_stringify (sel_arguments sel))\<rparr> = Inr sel"
  by (cases t) (auto simp: accept_v1_def normalize_arguments_v1_def JSON_stringify_def Let_def
      split: if_splits)

lemma accept_v1_object_total:
  "\<exists>kvs'. accept_v1 \<lparr>fn_name = nm, fn_arguments = Str (Text (JObj kvs))\<rparr> =
      Inr \<lparr>sel_name = nm, sel_arguments = JObj kvs'\<rparr>"
  by (auto simp: accept_v1_def normalize_arguments_v1_def JSON_stringify_def Let_def)

lemma accept_keeps_provided_arguments:
  "\<exists>kvs'. accept sys \<lparr>fn_name = nm, fn_arguments = Str (Text (JObj kvs))\<rparr> =
       Inr \<lparr>sel_name = nm, sel_arguments = JObj kvs'\<rparr> \<and>
     (\<forall>k v. map_of kvs k = Some v \<longrightarrow> map_of kvs' k = Some v) \<and>
     (\<forall>k. k \<in> fst ` set kvs' \<and> k \<notin> fst ` set kvs \<longrightarrow> kvs = [] \<and> k = ''path'')"
  by (cases kvs) (auto simp: accept_object)

lemma choose_NoToolProposed:
  assumes block: "\<And>call. block call \<noteq> Inl NoToolProposed"
      and res: "res = (case getToolDefinitions sys cfg w of
                  (Inl e, w1) \<Rightarrow> (Inl e, w1)
                | (Inr defs, w1) \<Rightarrow> chooseTool_loop block sys q defs MODEL_CANDIDATES w1)"
  shows "(fst res = Inl NoToolProposed \<longleftrightarrow>
      (\<exists>defs w1. getToolDefinitions sys cfg w = (Inr defs, w1) \<and>
         (\<forall>i<length MODEL_CANDIDATES.
            misses (create sys (asked w + i) (MODEL_CANDIDATES ! i) q (offered defs))))) \<and>
   (fst res = Inl NoToolProposed \<longrightarrow>
      asked_models (trace (snd res)) = asked_models (trace w) @ MODEL_CANDIDATES) \<and>
   (\<exists>m\<le>length MODEL_CANDIDATES.
      asked_models (trace (snd res)) = asked_models (trace w) @ take m MODEL_CANDIDATES \<and>
      distinct (take m MODEL_CANDIDATES))"
proof (cases "getToolDefinitions sys cfg w")
  case (Pair r w1)
  have a: "asked w1 = asked w" using Pair by (rule getToolDefinitions_asked)
  have t: "asked_models (trace w1) = asked_models (trace w)"
    using getToolDefinitions_trace[OF Pair] by (simp add: asked_models_append asked_models_pass)
  show ?thesis
  proof (cases r)
    case (Inl e)
    have e: "e = TransportError" using Pair Inl getToolDefinitions_error by blast
    have c: "res = (Inl TransportError, w1)"
      using Pair Inl e by (simp add: res)
    have 1: "fst res \<noteq> Inl NoToolProposed" by (simp add: c)
    have 2: "\<not> (\<exists>defs w1. getToolDefinitions sys cfg w = (Inr defs, w1) \<and>
         (\<forall>i<length MODEL_CANDIDATES.
            misses (create sys (asked w + i) (MODEL_CANDIDATES ! i) q (offered defs))))"
      using Pair Inl by simp
    have 3: "\<exists>m\<le>length MODEL_CANDIDATES.
      asked_models (trace (snd res)) = asked_models (trace w) @ take m MODEL_CANDIDATES \<and>
      distinct (take m MODEL_CANDIDATES)"
      by (intro exI[of _ 0]) (simp add: c t)
    show ?thesis using 1 2 3 by blast
  next
    case (Inr defs)
    have c: "res = chooseTool_loop block sys q defs MODEL_CANDIDATES w1"
      using Pair Inr by (simp add: res)
    have 1: "fst res = Inl NoToolProposed \<longleftrightarrow>
        (\<forall>i<length MODEL_CANDIDATES.
            misses (create sys (asked w + i) (MODEL_CANDIDATES ! i) q (offered defs)))"
      unfolding c
      using chooseTool_loop_NoToolProposed_iff[of block sys q defs MODEL_CANDIDATES w1, OF block]
      by (simp add: a)
    have 2: "fst res = Inl NoToolProposed \<longrightarrow>
      asked_models (trace (snd res)) = asked_models (trace w) @ MODEL_CANDIDATES"
      unfolding c
      using chooseTool_loop_NoToolProposed_models[of block sys q defs MODEL_CANDIDATES w1, OF block]
      by (simp add: t)
    obtain m where m: "m \<le> length MODEL_CANDIDATES"
      "asked_models (trace (snd res)) = asked_models (trace w) @ take m MODEL_CANDIDATES"
      unfolding c
      using chooseTool_loop_models[of MODEL_CANDIDATES block sys q defs w1]
      by (auto simp: t)
    have 3: "\<exists>m\<le>length MODEL_CANDIDATES.
      asked_models (trace (snd res)) = asked_models (trace w) @ take m MODEL_CANDIDATES \<and>
      distinct (take m MODEL_CANDIDATES)"
      using m distinct_MODEL_CANDIDATES by (intro exI[of _ m]) simp
    have 0: "(\<exists>defs w1. getToolDefinitions sys cfg w = (Inr defs, w1) \<and>
         (\<forall>i<length MODEL_CANDIDATES.
            misses (create sys (asked w + i) (MODEL_CANDIDATES ! i) q (offered defs)))) \<longleftrightarrow>
        (\<forall>i<length MODEL_CANDIDATES.
            misses (create sys (asked w + i) (MODEL_CANDIDATES ! i) q (offered defs)))"
      using Pair Inr by simp
    show ?thesis using 1 2 3 unfolding 0 by blast
  qed
qed

lemma chooseTool_Inr:
  assumes "chooseTool sys cfg q w = (Inr sel, w2)"
  shows "\<exists>defs1 w1 m. getToolDefinitions sys cfg w = (Inr defs1, w1) \<and>
       m \<le> length MODEL_CANDIDATES \<and>
       spawned w2 = spawned w1 \<and>
       trace w2 = trace w1 @ asks (asked w) (take m MODEL_CANDIDATES)"
proof (cases "getToolDefinitions sys cfg w")
  case (Pair r w1)
  show ?thesis
  proof (cases r)
    case (Inl e)
    then show ?thesis using assms Pair by (simp add: chooseTool_def)
  next
    case (Inr defs1)
    have c: "chooseTool_loop (accept sys) sys q defs1 MODEL_CANDIDATES w1 = (Inr sel, w2)"
      using assms Pair Inr by (simp add: chooseTool_def)
    have a: "asked w1 = asked w" using Pair by (rule getToolDefinitions_asked)
    have s: "spawned w2 = spawned w1"
      using loop_spawned[of "accept sys" sys q defs1 MODEL_CANDIDATES w1] by (simp add: c)
    obtain m where "m \<le> length MODEL_CANDIDATES"
      "trace w2 = trace w1 @ asks (asked w) (take m MODEL_CANDIDATES)"
      using loop_asks_prefix[of MODEL_CANDIDATES "accept sys" sys q defs1 w1]
      by (auto simp: c a)
    then show ?thesis using Pair Inr s by auto
  qed
qed

subsection \<open>Trimming and text segments\<close>

lemma trim_decompose:
  "\<exists>pre suf. s = pre @ trim s @ suf \<and> list_all is_white_space pre \<and> list_all is_white_space suf"
proof -
  let ?r = "dropWhile is_white_space s"
  have r: "?r = rev (dropWhile is_white_space (rev ?r)) @ rev (takeWhile is_white_space (rev ?r))"
    by (metis rev_append rev_rev_ident takeWhile_dropWhile_id)
  have "s = takeWhile is_white_space s @ trim s @ rev (takeWhile is_white_space (rev ?r))"
    unfolding trim_def using r by (metis takeWhile_dropWhile_id)
  moreover have "list_all is_white_space (takeWhile is_white_space s)"
    by (simp add: list_all_iff) (meson set_takeWhileD)
  moreover have "list_all is_white_space (rev (takeWhile is_white_space (rev ?r)))"
    by (simp add: list_all_iff) (meson set_takeWhileD)
  ultimately show ?thesis by blast
qed

lemma trim_ends:
  assumes "trim s \<noteq> []"
  shows "\<not> is_white_space (hd (trim s)) \<and> \<not> is_white_space (last (trim s))"
proof -
  let ?r = "dropWhile is_white_space s"
  let ?d = "dropWhile is_white_space (rev ?r)"
  have t: "trim s = rev ?d" by (simp add: trim_def)
  have d: "?d \<noteq> []" using assms t by simp
  have "last (trim s) = hd ?d" using d by (simp add: t last_rev)
  then have l: "\<not> is_white_space (last (trim s))" using d hd_dropWhile by metis
  have r: "?r = trim s @ rev (takeWhile is_white_space (rev ?r))"
    unfolding t by (metis rev_append rev_rev_ident takeWhile_dropWhile_id)
  have "?r \<noteq> []"
  proof
    assume "?r = []"
    then have "trim s @ rev (takeWhile is_white_space (rev ?r)) = []" using r by metis
    then show False using assms by simp
  qed
  then have "\<not> is_white_space (hd ?r)" using hd_dropWhile by metis
  moreover have "hd ?r = hd (trim s)" using r assms by (metis hd_append2)
  ultimately show ?thesis using l by simp
qed

lemma filter_map_text_segments:
  "map (\<lambda>c. trim (ctext c)) (filter (\<lambda>c. ctype c = ''text'') cs) = text_segments cs"
  by (induction cs rule: text_segments.induct) auto

lemma length_text_segments:
  "length (text_segments cs) = length (filter (\<lambda>c. ctype c = ''text'') cs)"
  by (induction cs rule: text_segments.induct) auto

lemma trim_example: "trim [0x20, 0x61, 0x2E, 0x74, 0x78, 0x74, 0x0A] = [0x61, 0x2E, 0x74, 0x78, 0x74]"
  by (simp add: trim_def is_white_space_def)

lemma trim_example2: "trim [0x62] = [0x62]"
  by (simp add: trim_def is_white_space_def)

subsection \<open>The call\<close>

text \<open>
  A call that returns has listed every backend, found the name and opened one more
  session; nothing closes that session.
\<close>

lemma find_None_names: "find (\<lambda>d. name d = nm) defs = None \<longleftrightarrow> nm \<notin> set (map name defs)"
  by (auto simp: find_None_iff)

lemma callMcpTool_Inr:
  assumes "callMcpTool sys cfg nm a w = (Inr r, w')"
  shows "\<exists>defs w1 d.
      getToolDefinitions sys cfg w = (Inr defs, w1) \<and>
      find (\<lambda>d. name d = nm) defs = Some d \<and>
      w' = w1\<lparr>spawned := Suc (spawned w1),
               trace := trace w1 @ [Opened (spawned w1) (serverKey d),
                                    Called (spawned w1) (toolName d) a]\<rparr>"
  using assms unfolding callMcpTool_def
  by (auto simp: Let_def split: prod.splits sum.splits option.splits if_splits)

lemma callMcpTool_never_closes:
  assumes "callMcpTool sys cfg nm a w = (Inr r, w')" and "trace w = []"
  shows "open_sessions (trace w') = [spawned w + length cfg] \<and>
         opens (trace w') = length cfg + 1 \<and> closes (trace w') = length cfg"
proof -
  from callMcpTool_Inr[OF assms(1)]
  obtain defs w1 d where p: "getToolDefinitions sys cfg w = (Inr defs, w1)"
    and f: "find (\<lambda>d. name d = nm) defs = Some d"
    and w': "w' = w1\<lparr>spawned := Suc (spawned w1),
               trace := trace w1 @ [Opened (spawned w1) (serverKey d),
                                    Called (spawned w1) (toolName d) a]\<rparr>"
    by (elim exE conjE)
  have w1: "w1 = w\<lparr>spawned := spawned w + length cfg,
          trace := trace w @ session_events (spawned w) cfg\<rparr>"
    using getToolDefinitions_Inr[OF p] .
  show ?thesis
    using open_after_session_events[of "[]" "spawned w" cfg]
    by (simp add: w' w1 assms(2) open_sessions_def open_after_append opens_append closes_append
        opens_session_events closes_session_events)
qed

lemma callMcpTool_trace:
  "\<exists>tl. trace (snd (callMcpTool sys cfg nm a w)) = trace w @ pass_events sys (spawned w) cfg @ tl"
proof (cases "getToolDefinitions sys cfg w")
  case (Pair r w1)
  have t: "trace w1 = trace w @ pass_events sys (spawned w) cfg"
    using getToolDefinitions_trace[OF Pair] .
  show ?thesis
    unfolding callMcpTool_def Pair
    by (auto simp: t Let_def split: sum.splits option.splits)
qed

subsection \<open>The sessions of a listing pass\<close>

text \<open>
  At most one session is open at any moment of a pass, a session is opened only when
  none is open, and a pass that goes through leaves none open. When \<^verbatim>\<open>listTools\<close>
  rejects, the pass ends with the session of that backend open.
\<close>

lemma pass_one_session_at_a_time:
  "trace (snd (getToolDefinitions sys cfg w)) = trace w @ pass_events sys (spawned w) cfg \<and>
   (\<forall>n. length (open_sessions (take n (pass_events sys (spawned w) cfg))) \<le> 1) \<and>
   one_at_a_time None (pass_events sys (spawned w) cfg) \<and>
   (\<forall>defs w1. getToolDefinitions sys cfg w = (Inr defs, w1) \<longrightarrow>
      open_sessions (pass_events sys (spawned w) cfg) = [])"
proof -
  have "open_sessions (pass_events sys (spawned w) cfg) = []"
    if "getToolDefinitions sys cfg w = (Inr defs, w1)" for defs w1
  proof -
    have "trace w @ pass_events sys (spawned w) cfg = trace w @ session_events (spawned w) cfg"
      using getToolDefinitions_trace[OF that] getToolDefinitions_Inr[OF that] by simp
    then show ?thesis by (simp add: open_sessions_session_events)
  qed
  then show ?thesis
    using pass_prefix_open[of _ sys "spawned w" cfg]
    by (simp add: getToolDefinitions_def loop_trace open_sessions_def pass_one_at_a_time)
qed

lemma pass_events_listing_rejected:
  "(\<forall>i<length pre. connects (spawn sys (s + i) (snd (pre ! i))) \<and>
        listTools (spawn sys (s + i) (snd (pre ! i))) \<noteq> None) \<Longrightarrow>
   connects (spawn sys (s + length pre) c) \<Longrightarrow>
   listTools (spawn sys (s + length pre) c) = None \<Longrightarrow>
   pass_events sys s (pre @ (key, c) # rest) =
     session_events s pre @ [Opened (s + length pre) key, Listed (s + length pre)]"
proof (induction pre arbitrary: s)
  case Nil
  then show ?case by simp
next
  case (Cons a pre)
  obtain k' c' where a: "a = (k', c')" by (cases a)
  have h0: "connects (spawn sys s c')" "listTools (spawn sys s c') \<noteq> None"
    using Cons.prems(1)[rule_format, of 0] by (auto simp: a)
  have hs: "\<forall>i<length pre. connects (spawn sys (Suc s + i) (snd (pre ! i))) \<and>
        listTools (spawn sys (Suc s + i) (snd (pre ! i))) \<noteq> None"
  proof (intro allI impI)
    fix i assume "i < length pre"
    then show "connects (spawn sys (Suc s + i) (snd (pre ! i))) \<and>
        listTools (spawn sys (Suc s + i) (snd (pre ! i))) \<noteq> None"
      using Cons.prems(1)[rule_format, of "Suc i"] by simp
  qed
  have c: "connects (spawn sys (Suc s + length pre) c)" using Cons.prems(2) by simp
  have l: "listTools (spawn sys (Suc s + length pre) c) = None" using Cons.prems(3) by simp
  show ?case
    using Cons.IH[OF hs c l] h0 by (auto simp: a)
qed

lemma getToolDefinitions_listing_rejected:
  assumes "\<forall>i<length pre. connects (spawn sys (spawned w + i) (snd (pre ! i))) \<and>
        listTools (spawn sys (spawned w + i) (snd (pre ! i))) \<noteq> None"
      and "connects (spawn sys (spawned w + length pre) c)"
      and "listTools (spawn sys (spawned w + length pre) c) = None"
  shows "trace (snd (getToolDefinitions sys (pre @ (key, c) # rest) w)) =
           trace w @ session_events (spawned w) pre @
             [Opened (spawned w + length pre) key, Listed (spawned w + length pre)] \<and>
         open_sessions (session_events (spawned w) pre @
             [Opened (spawned w + length pre) key, Listed (spawned w + length pre)]) =
           [spawned w + length pre]"
proof -
  have "trace (snd (getToolDefinitions sys (pre @ (key, c) # rest) w)) =
      trace w @ pass_events sys (spawned w) (pre @ (key, c) # rest)"
    by (simp add: getToolDefinitions_def loop_trace)
  then have "trace (snd (getToolDefinitions sys (pre @ (key, c) # rest) w)) =
           trace w @ session_events (spawned w) pre @
             [Opened (spawned w + length pre) key, Listed (spawned w + length pre)]"
    using pass_events_listing_rejected[OF assms] by simp
  moreover have "open_sessions (session_events (spawned w) pre @
             [Opened (spawned w + length pre) key, Listed (spawned w + length pre)]) =
           [spawned w + length pre]"
    using open_after_session_events[of "[]" "spawned w" pre]
    by (simp add: open_sessions_def open_after_append)
  ultimately show ?thesis by simp
qed

subsection \<open>The example runs\<close>

lemma demo_pass:
  "getToolDefinitions demo demo_cfg \<lparr>spawned = s, asked = n, trace = es\<rparr> =
     (Inr [tag ''filesystem'' list_directory, tag ''filesystem'' move_file,
           tag ''time'' get_current_time],
      \<lparr>spawned = s + 2, asked = n,
       trace = es @ [Opened s ''filesystem'', Listed s, Closed s,
                     Opened (Suc s) ''time'', Listed (Suc s), Closed (Suc s)]\<rparr>)"
  by (simp add: getToolDefinitions_def demo_def demo_cfg_def filesystem_def
      clock_def fs_process_def clock_process_def)

lemma mute_pass:
  "getToolDefinitions mute demo_cfg start =
     (Inr [tag ''filesystem'' list_directory, tag ''filesystem'' move_file,
           tag ''time'' get_current_time],
      \<lparr>spawned = 2, asked = 0,
       trace = [Opened 0 ''filesystem'', Listed 0, Closed 0,
                Opened 1 ''time'', Listed 1, Closed 1]\<rparr>)"
  by (simp add: getToolDefinitions_def mute_def demo_def demo_cfg_def filesystem_def
      clock_def fs_process_def clock_process_def start_def)

lemma pathful_pass:
  "getToolDefinitions pathful demo_cfg start =
     (Inr [tag ''filesystem'' list_directory, tag ''filesystem'' move_file,
           tag ''time'' get_current_time],
      \<lparr>spawned = 2, asked = 0,
       trace = [Opened 0 ''filesystem'', Listed 0, Closed 0,
                Opened 1 ''time'', Listed 1, Closed 1]\<rparr>)"
  by (simp add: getToolDefinitions_def pathful_def demo_def demo_cfg_def filesystem_def
      clock_def fs_process_def clock_process_def start_def)

lemma shifting_pass_1:
  "getToolDefinitions shifting demo_cfg start =
     (Inr shifting_catalog_1,
      \<lparr>spawned = 2, asked = 0,
       trace = [Opened 0 ''filesystem'', Listed 0, Closed 0,
                Opened 1 ''time'', Listed 1, Closed 1]\<rparr>)"
  by (simp add: getToolDefinitions_def shifting_def demo_def demo_cfg_def filesystem_def
      clock_def fs_process_def clock_process_def start_def shifting_catalog_1_def)

lemma shifting_pass_2:
  "getToolDefinitions shifting demo_cfg \<lparr>spawned = 2, asked = n, trace = es\<rparr> =
     (Inr shifting_catalog_2,
      \<lparr>spawned = 4, asked = n,
       trace = es @ [Opened 2 ''filesystem'', Listed 2, Closed 2,
                Opened 3 ''time'', Listed 3, Closed 3]\<rparr>)"
  by (simp add: getToolDefinitions_def shifting_def demo_def demo_cfg_def filesystem_def
      clock_def fs_process_def clock_process_def shifting_catalog_2_def)

lemma shifting_choice:
  "chooseTool shifting demo_cfg q start =
     (Inr \<lparr>sel_name = ''list_directory'',
           sel_arguments = JObj [(''path'', JStr ''/Users/honjo2/Desktop'')]\<rparr>,
      \<lparr>spawned = 2, asked = 2,
       trace = [Opened 0 ''filesystem'', Listed 0, Closed 0,
                Opened 1 ''time'', Listed 1, Closed 1,
                Asked 0 ''gpt-3.5-turbo-0125'', Asked 1 ''gpt-4o-release'']\<rparr>)"
  unfolding chooseTool_def shifting_pass_1
  by (simp add: MODEL_CANDIDATES_def shifting_def demo_def first_tool_call_def accept_object
      default_path_def)

lemma shifting_catalogs_differ: "shifting_catalog_1 \<noteq> shifting_catalog_2"
  by (simp add: shifting_catalog_1_def shifting_catalog_2_def)

lemma shifting_main:
  "main shifting demo_cfg q start =
     (Inr [[0x61, 0x2E, 0x74, 0x78, 0x74], [0x62]],
      \<lparr>spawned = 5, asked = 2,
       trace = [Opened 0 ''filesystem'', Listed 0, Closed 0,
                Opened 1 ''time'', Listed 1, Closed 1,
                Asked 0 ''gpt-3.5-turbo-0125'', Asked 1 ''gpt-4o-release'',
                Opened 2 ''filesystem'', Listed 2, Closed 2,
                Opened 3 ''time'', Listed 3, Closed 3,
                Opened 4 ''filesystem'',
                Called 4 ''list_directory'' (JObj [(''path'', JStr ''/Users/honjo2/Desktop'')])]\<rparr>)"
  unfolding main_def shifting_choice executeTool_def callMcpTool_def
  apply (simp add: shifting_pass_2)
  apply (simp add: shifting_catalog_2_def tag_def list_directory_def move_file_def demo_cfg_def
      shifting_def demo_def filesystem_def fs_process_def desktop_listing_def
      trim_example trim_example2)
  done

section \<open>The catalog\<close>

text \<open>
  Claim C2. When every backend of the configuration connects and answers \<^verbatim>\<open>listTools\<close>,
  \<^verbatim>\<open>getToolDefinitions\<close> returns the catalog of the specification: its length is the sum
  of the lengths of the tool lists, the entries of a backend carry the key of that
  backend, backends come in the order of the configuration and the tools of a backend
  in the order it listed them.
\<close>

theorem getToolDefinitions_catalog:
  assumes "length tss = length cfg"
      and "\<forall>i<length cfg. connects (spawn sys (spawned w + i) (snd (cfg ! i))) \<and>
             listTools (spawn sys (spawned w + i) (snd (cfg ! i))) = Some (tss ! i)"
  shows "(\<exists>w'. getToolDefinitions sys cfg w = (Inr (catalog_of cfg tss), w')) \<and>
         length (catalog_of cfg tss) = sum_list (map length tss) \<and>
         map serverKey (catalog_of cfg tss) =
           concat (map2 (\<lambda>kc ts. replicate (length ts) (fst kc)) cfg tss) \<and>
         map name (catalog_of cfg tss) = concat (map (map name) tss)"
proof -
  have "getToolDefinitions sys cfg w =
          (Inr (catalog_of cfg tss),
           w\<lparr>spawned := spawned w + length cfg, trace := trace w @ session_events (spawned w) cfg\<rparr>)"
    using loop_success[OF assms, of "[]"] by (simp add: getToolDefinitions_def catalog_of_def)
  then show ?thesis
    using assms(1) by (auto simp: length_catalog_of serverKey_catalog_of name_catalog_of)
qed

theorem getToolDefinitions_catalog_witness:
  "(\<exists>w'. getToolDefinitions demo demo_cfg start =
      (Inr [tag ''filesystem'' list_directory, tag ''filesystem'' move_file,
            tag ''time'' get_current_time], w')) \<and>
   length (catalog_of demo_cfg [[list_directory, move_file], [get_current_time]]) = 3 \<and>
   map serverKey (catalog_of demo_cfg [[list_directory, move_file], [get_current_time]]) =
     [''filesystem'', ''filesystem'', ''time'']"
proof -
  have len: "length [[list_directory, move_file], [get_current_time]] = length demo_cfg"
    by (simp add: demo_cfg_def)
  have ok: "\<forall>i<length demo_cfg.
      connects (spawn demo (spawned start + i) (snd (demo_cfg ! i))) \<and>
      listTools (spawn demo (spawned start + i) (snd (demo_cfg ! i))) =
        Some ([[list_directory, move_file], [get_current_time]] ! i)"
    by (auto simp: demo_cfg_def demo_def start_def filesystem_def clock_def fs_process_def
        clock_process_def less_Suc_eq)
  have cat: "catalog_of demo_cfg [[list_directory, move_file], [get_current_time]] =
      [tag ''filesystem'' list_directory, tag ''filesystem'' move_file,
       tag ''time'' get_current_time]"
    by (simp add: catalog_of_def demo_cfg_def)
  show ?thesis
    using getToolDefinitions_catalog[OF len ok] by (simp add: cat) (simp add: demo_cfg_def tag_def)
qed

text \<open>
  Claim C9 says that the session of a backend is closed before the next one is opened on
  every path of the pass, also when the listing fails. \<^verbatim>\<open>transport.close()\<close> comes after
  \<^verbatim>\<open>await client.listTools()\<close> with nothing to run it when that call rejects. On this
  run the second backend rejects the listing: the pass fails, and session 1, the one
  opened for that backend, is still open.
\<close>

theorem getToolDefinitions_leaves_session_open:
  "fst (getToolDefinitions deaf demo_cfg start) = Inl TransportError \<and>
   trace (snd (getToolDefinitions deaf demo_cfg start)) =
     [Opened 0 ''filesystem'', Listed 0, Closed 0, Opened 1 ''time'', Listed 1] \<and>
   open_sessions (trace (snd (getToolDefinitions deaf demo_cfg start))) = [1]"
  by (simp add: getToolDefinitions_def deaf_def demo_def demo_cfg_def start_def filesystem_def
      clock_def fs_process_def deaf_process_def open_sessions_def)

section \<open>Choosing a tool\<close>

text \<open>
  Claim C3. If the models before position \<open>k\<close> miss and the model at position \<open>k\<close>
  proposes \<open>call\<close>, then \<^verbatim>\<open>chooseTool\<close> returns what the accepted call yields, and the
  requests it has sent are those to the models at positions \<open>0\<close> to \<open>k\<close>: no later model
  is asked. When the arguments of \<open>call\<close> are the text of a JSON object, the result is the
  selection with the name of \<open>call\<close> and that object, the default path put in when the
  object is empty.
\<close>

theorem chooseTool_first_proposal_wins:
  assumes "getToolDefinitions sys cfg w = (Inr defs, w1)"
      and "k < length MODEL_CANDIDATES"
      and "\<forall>i<k. misses (create sys (asked w + i) (MODEL_CANDIDATES ! i) q (offered defs))"
      and "proposes (create sys (asked w + k) (MODEL_CANDIDATES ! k) q (offered defs)) call"
  shows "fst (chooseTool sys cfg q w) = accept sys call \<and>
         trace (snd (chooseTool sys cfg q w)) =
           trace w1 @ asks (asked w) (take (Suc k) MODEL_CANDIDATES) \<and>
         asked (snd (chooseTool sys cfg q w)) = asked w + Suc k \<and>
         (\<forall>kvs. fn_arguments call = Str (Text (JObj kvs)) \<longrightarrow>
            fst (chooseTool sys cfg q w) =
              Inr \<lparr>sel_name = fn_name call,
                   sel_arguments =
                     JObj (if kvs = [] then [(''path'', JStr (default_path sys))] else kvs)\<rparr>)"
proof -
  have a: "asked w1 = asked w" using assms(1) by (rule getToolDefinitions_asked)
  have run: "chooseTool sys cfg q w =
      (accept sys call,
       w1\<lparr>asked := asked w1 + Suc k,
          trace := trace w1 @ asks (asked w1) (take (Suc k) MODEL_CANDIDATES)\<rparr>)"
    using loop_hit[of k MODEL_CANDIDATES sys w1 q defs call "accept sys"] assms
    by (simp add: chooseTool_def a)
  have obj: "accept sys call =
      Inr \<lparr>sel_name = fn_name call,
           sel_arguments = JObj (if kvs = [] then [(''path'', JStr (default_path sys))] else kvs)\<rparr>"
    if "fn_arguments call = Str (Text (JObj kvs))" for kvs
    using accept_object[of sys "fn_name call" kvs] that
    by (cases call) simp
  show ?thesis using obj by (simp add: run a)
qed

theorem chooseTool_first_proposal_wins_witness:
  "fst (chooseTool demo demo_cfg ''list my desktop'' start) =
     Inr \<lparr>sel_name = ''list_directory'',
          sel_arguments = JObj [(''path'', JStr ''/Users/honjo2/Desktop'')]\<rparr> \<and>
   trace (snd (chooseTool demo demo_cfg ''list my desktop'' start)) =
     [Opened 0 ''filesystem'', Listed 0, Closed 0, Opened 1 ''time'', Listed 1, Closed 1,
      Asked 0 ''gpt-3.5-turbo-0125'', Asked 1 ''gpt-4o-release'']"
proof -
  let ?defs = "[tag ''filesystem'' list_directory, tag ''filesystem'' move_file,
                tag ''time'' get_current_time]"
  let ?w1 = "\<lparr>spawned = 2, asked = 0,
     trace = [Opened 0 ''filesystem'', Listed 0, Closed 0, Opened 1 ''time'', Listed 1, Closed 1]\<rparr>"
  let ?call = "\<lparr>fn_name = ''list_directory'', fn_arguments = Str (Text (JObj []))\<rparr>"
  have pass: "getToolDefinitions demo demo_cfg start = (Inr ?defs, ?w1)"
    by (simp add: getToolDefinitions_def demo_def demo_cfg_def start_def filesystem_def
        clock_def fs_process_def clock_process_def)
  have k: "1 < length MODEL_CANDIDATES" by (simp add: MODEL_CANDIDATES_def)
  have miss: "\<forall>i<1. misses (create demo (asked start + i) (MODEL_CANDIDATES ! i)
      ''list my desktop'' (offered ?defs))"
    by (simp add: demo_def start_def misses_def first_tool_call_def)
  have hit: "proposes (create demo (asked start + 1) (MODEL_CANDIDATES ! 1)
      ''list my desktop'' (offered ?defs)) ?call"
    by (simp add: demo_def start_def proposes_def first_tool_call_def)
  have dp: "default_path demo = ''/Users/honjo2/Desktop''"
    by (simp add: default_path_def demo_def)
  show ?thesis
    using chooseTool_first_proposal_wins[OF pass k miss hit]
    by (simp add: dp start_def MODEL_CANDIDATES_def accept_object)
qed

text \<open>
  Claim C4. \<^verbatim>\<open>chooseTool\<close> fails with \<open>NoToolProposed\<close> exactly when the listing pass went
  through and every model of \<open>MODEL_CANDIDATES\<close> missed, and then every model has been asked.
  On every run the models asked are an initial part of \<open>MODEL_CANDIDATES\<close>, so no model
  is asked twice. The same holds for the earlier variant.
\<close>

theorem chooseTool_NoToolProposed_iff:
  "((fst (chooseTool sys cfg q w) = Inl NoToolProposed \<longleftrightarrow>
      (\<exists>defs w1. getToolDefinitions sys cfg w = (Inr defs, w1) \<and>
         (\<forall>i<length MODEL_CANDIDATES.
            misses (create sys (asked w + i) (MODEL_CANDIDATES ! i) q (offered defs))))) \<and>
    (fst (chooseTool sys cfg q w) = Inl NoToolProposed \<longrightarrow>
      asked_models (trace (snd (chooseTool sys cfg q w))) =
        asked_models (trace w) @ MODEL_CANDIDATES) \<and>
    (\<exists>m\<le>length MODEL_CANDIDATES.
      asked_models (trace (snd (chooseTool sys cfg q w))) =
        asked_models (trace w) @ take m MODEL_CANDIDATES \<and>
      distinct (take m MODEL_CANDIDATES))) \<and>
   ((fst (chooseTool_v1 sys cfg q w) = Inl NoToolProposed \<longleftrightarrow>
      (\<exists>defs w1. getToolDefinitions sys cfg w = (Inr defs, w1) \<and>
         (\<forall>i<length MODEL_CANDIDATES.
            misses (create sys (asked w + i) (MODEL_CANDIDATES ! i) q (offered defs))))) \<and>
    (fst (chooseTool_v1 sys cfg q w) = Inl NoToolProposed \<longrightarrow>
      asked_models (trace (snd (chooseTool_v1 sys cfg q w))) =
        asked_models (trace w) @ MODEL_CANDIDATES) \<and>
    (\<exists>m\<le>length MODEL_CANDIDATES.
      asked_models (trace (snd (chooseTool_v1 sys cfg q w))) =
        asked_models (trace w) @ take m MODEL_CANDIDATES \<and>
      distinct (take m MODEL_CANDIDATES)))"
  using choose_NoToolProposed[OF accept_not_NoToolProposed chooseTool_def]
    choose_NoToolProposed[OF accept_v1_not_NoToolProposed chooseTool_v1_def]
  by (rule conjI)

theorem chooseTool_NoToolProposed_iff_witness:
  "fst (chooseTool mute demo_cfg ''sing a song'' start) = Inl NoToolProposed \<and>
   asked_models (trace (snd (chooseTool mute demo_cfg ''sing a song'' start))) =
     [''gpt-3.5-turbo-0125'', ''gpt-4o-release'']"
proof -
  have all: "\<forall>i<length MODEL_CANDIDATES.
      misses (create mute (asked start + i) (MODEL_CANDIDATES ! i) ''sing a song''
        (offered [tag ''filesystem'' list_directory, tag ''filesystem'' move_file,
           tag ''time'' get_current_time]))"
    by (simp add: mute_def demo_def misses_def first_tool_call_def)
  have rhs: "\<exists>defs w1. getToolDefinitions mute demo_cfg start = (Inr defs, w1) \<and>
      (\<forall>i<length MODEL_CANDIDATES.
         misses (create mute (asked start + i) (MODEL_CANDIDATES ! i) ''sing a song''
           (offered defs)))"
    using mute_pass all by blast
  have t: "asked_models (trace start) = []" by (simp add: start_def)
  show ?thesis
    using chooseTool_NoToolProposed_iff[of mute demo_cfg "''sing a song''" start] rhs
    by (simp add: t MODEL_CANDIDATES_def)
qed

text \<open>
  Claim C5 says that a default never replaces a value the model gave. In the earlier
  variant \<^verbatim>\<open>arguments\<close> is the string the API sent: \<^verbatim>\<open>arguments?.path\<close> is
  \<^verbatim>\<open>undefined\<close> and \<^verbatim>\<open>typeof arguments === 'object'\<close> is false, so the guard always fires
  and the default is written into an empty object. Asked to list \<^verbatim>\<open>/tmp\<close>, that variant
  returns the desktop path; the current file parses the string first and returns \<^verbatim>\<open>/tmp\<close>.
\<close>

theorem chooseTool_v1_overrides_given_path:
  "fst (chooseTool_v1 pathful demo_cfg ''list /tmp'' start) =
     Inr \<lparr>sel_name = ''list_directory'',
          sel_arguments = JObj [(''path'', JStr ''/Users/honjo2/Desktop'')]\<rparr> \<and>
   fst (chooseTool pathful demo_cfg ''list /tmp'' start) =
     Inr \<lparr>sel_name = ''list_directory'', sel_arguments = JObj [(''path'', JStr ''/tmp'')]\<rparr>"
  unfolding chooseTool_v1_def chooseTool_def pathful_pass
  by (simp add: MODEL_CANDIDATES_def pathful_def demo_def first_tool_call_def accept_object
      accept_v1_def normalize_arguments_v1_def JSON_stringify_def)

text \<open>
  Claim C6. Filling in the arguments a second time changes nothing: when a call with the
  name \<open>nm\<close> and an argument string is accepted with the selection \<open>sel\<close>, the call
  with the same name and the arguments of \<open>sel\<close>, written back as a string, is accepted
  with \<open>sel\<close> again; and every call whose argument string is a JSON object is accepted.
  This holds for the current file and for the earlier variant.
\<close>

theorem normalization_idempotent:
  "(accept sys \<lparr>fn_name = nm, fn_arguments = Str t\<rparr> = Inr sel \<longrightarrow>
      accept sys \<lparr>fn_name = nm, fn_arguments = Str (JSON_stringify (sel_arguments sel))\<rparr> =
        Inr sel) \<and>
   (\<exists>sel'. accept sys \<lparr>fn_name = nm, fn_arguments = Str (Text (JObj kvs))\<rparr> = Inr sel' \<and>
      accept sys \<lparr>fn_name = nm, fn_arguments = Str (JSON_stringify (sel_arguments sel'))\<rparr> =
        Inr sel') \<and>
   (accept_v1 \<lparr>fn_name = nm, fn_arguments = Str t\<rparr> = Inr sel \<longrightarrow>
      accept_v1 \<lparr>fn_name = nm, fn_arguments = Str (JSON_stringify (sel_arguments sel))\<rparr> =
        Inr sel) \<and>
   (\<exists>sel'. accept_v1 \<lparr>fn_name = nm, fn_arguments = Str (Text (JObj kvs))\<rparr> = Inr sel' \<and>
      accept_v1 \<lparr>fn_name = nm, fn_arguments = Str (JSON_stringify (sel_arguments sel'))\<rparr> =
        Inr sel')"
proof -
  have 1: "accept sys \<lparr>fn_name = nm, fn_arguments = Str t\<rparr> = Inr sel \<longrightarrow>
      accept sys \<lparr>fn_name = nm, fn_arguments = Str (JSON_stringify (sel_arguments sel))\<rparr> = Inr sel"
    using accept_idem by blast
  have 3: "accept_v1 \<lparr>fn_name = nm, fn_arguments = Str t\<rparr> = Inr sel \<longrightarrow>
      accept_v1 \<lparr>fn_name = nm, fn_arguments = Str (JSON_stringify (sel_arguments sel))\<rparr> = Inr sel"
    using accept_v1_idem by blast
  obtain s2 where s2: "accept sys \<lparr>fn_name = nm, fn_arguments = Str (Text (JObj kvs))\<rparr> = Inr s2"
    using accept_object by blast
  have 2: "\<exists>sel'. accept sys \<lparr>fn_name = nm, fn_arguments = Str (Text (JObj kvs))\<rparr> = Inr sel' \<and>
      accept sys \<lparr>fn_name = nm, fn_arguments = Str (JSON_stringify (sel_arguments sel'))\<rparr> = Inr sel'"
    using s2 accept_idem[OF s2] by blast
  obtain s4 where s4: "accept_v1 \<lparr>fn_name = nm, fn_arguments = Str (Text (JObj kvs))\<rparr> = Inr s4"
    using accept_v1_object_total by blast
  have 4: "\<exists>sel'. accept_v1 \<lparr>fn_name = nm, fn_arguments = Str (Text (JObj kvs))\<rparr> = Inr sel' \<and>
      accept_v1 \<lparr>fn_name = nm, fn_arguments = Str (JSON_stringify (sel_arguments sel'))\<rparr> = Inr sel'"
    using s4 accept_v1_idem[OF s4] by blast
  show ?thesis using 1 2 3 4 by blast
qed

theorem normalization_idempotent_witness:
  "accept demo \<lparr>fn_name = ''list_directory'', fn_arguments = Str (Text (JObj []))\<rparr> =
     Inr \<lparr>sel_name = ''list_directory'',
          sel_arguments = JObj [(''path'', JStr ''/Users/honjo2/Desktop'')]\<rparr> \<and>
   accept demo \<lparr>fn_name = ''list_directory'',
       fn_arguments = Str (JSON_stringify (JObj [(''path'', JStr ''/Users/honjo2/Desktop'')]))\<rparr> =
     Inr \<lparr>sel_name = ''list_directory'',
          sel_arguments = JObj [(''path'', JStr ''/Users/honjo2/Desktop'')]\<rparr> \<and>
   accept_v1 \<lparr>fn_name = ''move_file'', fn_arguments = Str (Text (JObj []))\<rparr> =
     Inr \<lparr>sel_name = ''move_file'',
          sel_arguments = JObj [(''source'', JStr ''/Users/honjo2/Desktop/chromebackup''),
            (''destination'', JStr ''/Users/honjo2/Desktop/chromebackup2'')]\<rparr> \<and>
   accept_v1 \<lparr>fn_name = ''move_file'',
       fn_arguments = Str (JSON_stringify
         (JObj [(''source'', JStr ''/Users/honjo2/Desktop/chromebackup''),
            (''destination'', JStr ''/Users/honjo2/Desktop/chromebackup2'')]))\<rparr> =
     Inr \<lparr>sel_name = ''move_file'',
          sel_arguments = JObj [(''source'', JStr ''/Users/honjo2/Desktop/chromebackup''),
            (''destination'', JStr ''/Users/honjo2/Desktop/chromebackup2'')]\<rparr>"
proof -
  let ?s = "\<lparr>sel_name = ''list_directory'',
          sel_arguments = JObj [(''path'', JStr ''/Users/honjo2/Desktop'')]\<rparr>"
  let ?m = "\<lparr>sel_name = ''move_file'',
          sel_arguments = JObj [(''source'', JStr ''/Users/honjo2/Desktop/chromebackup''),
            (''destination'', JStr ''/Users/honjo2/Desktop/chromebackup2'')]\<rparr>"
  have a: "accept demo \<lparr>fn_name = ''list_directory'', fn_arguments = Str (Text (JObj []))\<rparr> = Inr ?s"
    by (simp add: accept_object default_path_def demo_def)
  have b: "accept_v1 \<lparr>fn_name = ''move_file'', fn_arguments = Str (Text (JObj []))\<rparr> = Inr ?m"
    by (simp add: accept_v1_def normalize_arguments_v1_def JSON_stringify_def)
  show ?thesis
    using normalization_idempotent[of demo "''list_directory''" "Text (JObj [])" ?s "[]"]
      normalization_idempotent[of demo "''move_file''" "Text (JObj [])" ?m "[]"]
      a b
    by simp
qed

section \<open>Calling the tool\<close>

text \<open>
  Claim C7, as the code has it. \<^verbatim>\<open>callMcpTool\<close> first lists every backend again. When
  that pass goes through and the name is not in the catalog it gives, the call fails
  before any session is opened for the call: the world is the one the pass left, whose
  events are one opened, listed and closed session per backend, none of them open at
  the end.
\<close>

theorem callMcpTool_unknown_name:
  assumes "getToolDefinitions sys cfg w = (Inr defs, w1)"
      and "nm \<notin> set (map name defs)"
  shows "(\<exists>e. callMcpTool sys cfg nm a w = (Inl e, w1)) \<and>
         trace w1 = trace w @ session_events (spawned w) cfg \<and>
         open_sessions (session_events (spawned w) cfg) = [] \<and>
         opens (session_events (spawned w) cfg) = length cfg"
proof -
  have "find (\<lambda>d. name d = nm) defs = None" using assms(2) by (simp add: find_None_names)
  then have "callMcpTool sys cfg nm a w = (Inl TypeError, w1)"
    using assms(1) by (simp add: callMcpTool_def)
  moreover have "trace w1 = trace w @ session_events (spawned w) cfg"
    using getToolDefinitions_Inr[OF assms(1)] by simp
  ultimately show ?thesis
    by (simp add: open_sessions_session_events opens_session_events)
qed

theorem callMcpTool_unknown_name_witness:
  "(\<exists>e. callMcpTool demo demo_cfg ''read_file'' (JObj []) start =
     (Inl e,
      \<lparr>spawned = 2, asked = 0,
       trace = [Opened 0 ''filesystem'', Listed 0, Closed 0,
                Opened 1 ''time'', Listed 1, Closed 1]\<rparr>)) \<and>
   open_sessions [Opened 0 ''filesystem'', Listed 0, Closed 0,
                  Opened 1 ''time'', Listed 1, Closed 1] = []"
proof -
  have n: "''read_file'' \<notin> set (map name [tag ''filesystem'' list_directory,
      tag ''filesystem'' move_file, tag ''time'' get_current_time])"
    by (simp add: tag_def list_directory_def move_file_def get_current_time_def)
  have s: "session_events (spawned start) demo_cfg =
      [Opened 0 ''filesystem'', Listed 0, Closed 0, Opened 1 ''time'', Listed 1, Closed 1]"
    by (simp add: start_def demo_cfg_def)
  from callMcpTool_unknown_name[OF demo_pass[of 0 0 "[]", folded start_def] n, of "JObj []"]
  obtain e where e: "callMcpTool demo demo_cfg ''read_file'' (JObj []) start =
      (Inl e,
       \<lparr>spawned = 0 + 2, asked = 0,
        trace = [] @ [Opened 0 ''filesystem'', Listed 0, Closed 0,
                      Opened (Suc 0) ''time'', Listed (Suc 0), Closed (Suc 0)]\<rparr>)"
    and o: "open_sessions (session_events (spawned start) demo_cfg) = []"
    by (elim exE conjE)
  have "\<exists>e. callMcpTool demo demo_cfg ''read_file'' (JObj []) start =
     (Inl e,
      \<lparr>spawned = 2, asked = 0,
       trace = [Opened 0 ''filesystem'', Listed 0, Closed 0,
                Opened 1 ''time'', Listed 1, Closed 1]\<rparr>)"
    by (rule exI[of _ e]) (simp add: e)
  then show ?thesis using o unfolding s by simp
qed

text \<open>
  Claim C7, as it is stated, says that no session is opened before the failure. With two
  backends, two sessions have been opened by the time the call fails; the error is the
  TypeError of reading \<^verbatim>\<open>serverKey\<close> on \<^verbatim>\<open>undefined\<close>.
\<close>

theorem callMcpTool_unknown_name_opens_sessions:
  "fst (callMcpTool demo demo_cfg ''read_file'' (JObj []) start) = Inl TypeError \<and>
   opens (trace (snd (callMcpTool demo demo_cfg ''read_file'' (JObj []) start))) = 2"
  unfolding callMcpTool_def start_def demo_pass
  by (simp add: tag_def list_directory_def move_file_def get_current_time_def)

text \<open>
  Claim C8. When the catalog has the name, the backend connects and answers the call with
  a content list, \<^verbatim>\<open>callMcpTool\<close> returns the text segments of the list: as many as the
  list has segments of type \<^verbatim>\<open>text\<close>, in their order, each trimmed; a segment of another
  type is passed over without an error. Trimming a string takes white space off both
  ends and nothing else.
\<close>

theorem callMcpTool_text_segments:
  assumes "getToolDefinitions sys cfg w = (Inr defs, w1)"
      and "find (\<lambda>d. name d = nm) defs = Some d"
      and "map_of cfg (serverKey d) = Some server"
      and "connects (spawn sys (spawned w1) server)"
      and "callTool (spawn sys (spawned w1) server) (toolName d) a = Some (Envelope cs)"
  shows "fst (callMcpTool sys cfg nm a w) = Inr (text_segments cs) \<and>
         length (text_segments cs) = length (filter (\<lambda>c. ctype c = ''text'') cs) \<and>
         (\<forall>t. \<exists>pre suf. t = pre @ trim t @ suf \<and>
            list_all is_white_space pre \<and> list_all is_white_space suf \<and>
            (trim t = [] \<or>
             \<not> is_white_space (hd (trim t)) \<and> \<not> is_white_space (last (trim t))))"
proof -
  have "fst (callMcpTool sys cfg nm a w) = Inr (text_segments cs)"
    using assms by (simp add: callMcpTool_def Let_def filter_map_text_segments)
  moreover have "\<exists>pre suf. t = pre @ trim t @ suf \<and>
            list_all is_white_space pre \<and> list_all is_white_space suf \<and>
            (trim t = [] \<or>
             \<not> is_white_space (hd (trim t)) \<and> \<not> is_white_space (last (trim t)))" for t
    using trim_decompose[of t] trim_ends[of t] by blast
  ultimately show ?thesis by (simp add: length_text_segments)
qed

theorem callMcpTool_text_segments_witness:
  "fst (callMcpTool demo demo_cfg ''list_directory''
          (JObj [(''path'', JStr ''/Users/honjo2/Desktop'')]) start) =
     Inr [[0x61, 0x2E, 0x74, 0x78, 0x74], [0x62]] \<and>
   length (text_segments desktop_listing) = 2"
proof -
  let ?defs = "[tag ''filesystem'' list_directory, tag ''filesystem'' move_file,
                tag ''time'' get_current_time]"
  let ?w1 = "\<lparr>spawned = 0 + 2, asked = 0,
     trace = [] @ [Opened 0 ''filesystem'', Listed 0, Closed 0,
                   Opened (Suc 0) ''time'', Listed (Suc 0), Closed (Suc 0)]\<rparr>"
  have pass: "getToolDefinitions demo demo_cfg start = (Inr ?defs, ?w1)"
    unfolding start_def by (rule demo_pass)
  have f: "find (\<lambda>d. name d = ''list_directory'') ?defs = Some (tag ''filesystem'' list_directory)"
    by (simp add: tag_def list_directory_def)
  have s: "map_of demo_cfg (serverKey (tag ''filesystem'' list_directory)) = Some filesystem"
    by (simp add: demo_cfg_def tag_def)
  have c: "connects (spawn demo (spawned ?w1) filesystem)"
    by (simp add: demo_def filesystem_def fs_process_def)
  have r: "callTool (spawn demo (spawned ?w1) filesystem)
      (toolName (tag ''filesystem'' list_directory))
      (JObj [(''path'', JStr ''/Users/honjo2/Desktop'')]) = Some (Envelope desktop_listing)"
    by (simp add: demo_def filesystem_def fs_process_def)
  have t: "text_segments desktop_listing = [[0x61, 0x2E, 0x74, 0x78, 0x74], [0x62]]"
    by (simp add: desktop_listing_def trim_example trim_example2)
  show ?thesis
    using callMcpTool_text_segments[OF pass f s c r] by (simp add: t)
qed

text \<open>
  Claim C1 says that \<^verbatim>\<open>callMcpTool\<close> closes the session it opened before it returns.
  The function has no \<^verbatim>\<open>transport.close()\<close>, unlike \<^verbatim>\<open>getToolDefinitions\<close> in the same
  file. On this run it returns the two texts of the reply, and session 2, the one it
  opened for the call, is still open.
\<close>

theorem callMcpTool_leaves_session_open:
  "fst (callMcpTool demo demo_cfg ''list_directory''
          (JObj [(''path'', JStr ''/Users/honjo2/Desktop'')]) start) =
     Inr [[0x61, 0x2E, 0x74, 0x78, 0x74], [0x62]] \<and>
   trace (snd (callMcpTool demo demo_cfg ''list_directory''
          (JObj [(''path'', JStr ''/Users/honjo2/Desktop'')]) start)) =
     [Opened 0 ''filesystem'', Listed 0, Closed 0, Opened 1 ''time'', Listed 1, Closed 1,
      Opened 2 ''filesystem'',
      Called 2 ''list_directory'' (JObj [(''path'', JStr ''/Users/honjo2/Desktop'')])] \<and>
   open_sessions (trace (snd (callMcpTool demo demo_cfg ''list_directory''
          (JObj [(''path'', JStr ''/Users/honjo2/Desktop'')]) start))) = [2]"
  unfolding callMcpTool_def start_def demo_pass
  by (simp add: tag_def list_directory_def demo_cfg_def demo_def filesystem_def fs_process_def
      desktop_listing_def trim_example trim_example2 open_sessions_def)

section \<open>A whole request\<close>

text \<open>
  Claim C10. Once \<^verbatim>\<open>chooseTool\<close> has returned a selection, which takes a listing pass
  that went through, \<^verbatim>\<open>main\<close> goes on with \<^verbatim>\<open>callMcpTool\<close>, and that starts a second
  listing pass from the world \<^verbatim>\<open>chooseTool\<close> left. A request that succeeds has listed
  every backend twice and has resolved the chosen name in the catalog of the second pass:
  its events are a listing pass, the requests to the models, a second listing pass and
  the session of the call. The two catalogs can differ.
\<close>

theorem main_aggregates_twice:
  "(chooseTool sys cfg q w = (Inr sel0, w0) \<longrightarrow>
      (\<exists>defs1 w1. getToolDefinitions sys cfg w = (Inr defs1, w1)) \<and>
      main sys cfg q w = callMcpTool sys cfg (sel_name sel0) (sel_arguments sel0) w0 \<and>
      (\<exists>tl. trace (snd (main sys cfg q w)) =
         trace w0 @ pass_events sys (spawned w0) cfg @ tl)) \<and>
   (main sys cfg q w = (Inr r, w') \<longrightarrow>
      (\<exists>defs1 w1 sel w2 defs2 w3 d m.
         getToolDefinitions sys cfg w = (Inr defs1, w1) \<and>
         chooseTool sys cfg q w = (Inr sel, w2) \<and>
         getToolDefinitions sys cfg w2 = (Inr defs2, w3) \<and>
         find (\<lambda>d. name d = sel_name sel) defs2 = Some d \<and>
         m \<le> length MODEL_CANDIDATES \<and>
         trace w' =
           trace w @ session_events (spawned w) cfg @ asks (asked w) (take m MODEL_CANDIDATES) @
           session_events (spawned w + length cfg) cfg @
           [Opened (spawned w + 2 * length cfg) (serverKey d),
            Called (spawned w + 2 * length cfg) (toolName d) (sel_arguments sel)]) \<and>
      opens (trace w') = opens (trace w) + 2 * length cfg + 1 \<and>
      listings (trace w') = listings (trace w) + 2 * length cfg) \<and>
   (\<exists>sys cfg q w defs1 w1 sel w2 defs2 w3 r w'.
      getToolDefinitions sys cfg w = (Inr defs1, w1) \<and>
      chooseTool sys cfg q w = (Inr sel, w2) \<and>
      getToolDefinitions sys cfg w2 = (Inr defs2, w3) \<and>
      main sys cfg q w = (Inr r, w') \<and>
      defs1 \<noteq> defs2)"
proof (intro conjI impI)
  assume ch0: "chooseTool sys cfg q w = (Inr sel0, w0)"
  show "\<exists>defs1 w1. getToolDefinitions sys cfg w = (Inr defs1, w1)"
    using chooseTool_Inr[OF ch0] by blast
  show m0: "main sys cfg q w = callMcpTool sys cfg (sel_name sel0) (sel_arguments sel0) w0"
    by (simp add: main_def ch0 executeTool_def)
  show "\<exists>tl. trace (snd (main sys cfg q w)) = trace w0 @ pass_events sys (spawned w0) cfg @ tl"
    unfolding m0 by (rule callMcpTool_trace)
next
  assume run: "main sys cfg q w = (Inr r, w')"
  obtain sel w2 where ch: "chooseTool sys cfg q w = (Inr sel, w2)"
    and call: "callMcpTool sys cfg (sel_name sel) (sel_arguments sel) w2 = (Inr r, w')"
    using run unfolding main_def executeTool_def
    by (auto split: prod.splits sum.splits)
  from chooseTool_Inr[OF ch]
  obtain defs1 w1 m where p1: "getToolDefinitions sys cfg w = (Inr defs1, w1)"
    and m: "m \<le> length MODEL_CANDIDATES"
    and s2: "spawned w2 = spawned w1"
    and t2: "trace w2 = trace w1 @ asks (asked w) (take m MODEL_CANDIDATES)"
    by (elim exE conjE)
  from callMcpTool_Inr[OF call]
  obtain defs2 w3 d where p2: "getToolDefinitions sys cfg w2 = (Inr defs2, w3)"
    and f: "find (\<lambda>d. name d = sel_name sel) defs2 = Some d"
    and w': "w' = w3\<lparr>spawned := Suc (spawned w3),
               trace := trace w3 @ [Opened (spawned w3) (serverKey d),
                                    Called (spawned w3) (toolName d) (sel_arguments sel)]\<rparr>"
    by (elim exE conjE)
  have w1: "w1 = w\<lparr>spawned := spawned w + length cfg,
          trace := trace w @ session_events (spawned w) cfg\<rparr>"
    using getToolDefinitions_Inr[OF p1] .
  have w3: "w3 = w2\<lparr>spawned := spawned w2 + length cfg,
          trace := trace w2 @ session_events (spawned w2) cfg\<rparr>"
    using getToolDefinitions_Inr[OF p2] .
  have sp2: "spawned w2 = spawned w + length cfg" using s2 w1 by simp
  have tr: "trace w' =
           trace w @ session_events (spawned w) cfg @ asks (asked w) (take m MODEL_CANDIDATES) @
           session_events (spawned w + length cfg) cfg @
           [Opened (spawned w + 2 * length cfg) (serverKey d),
            Called (spawned w + 2 * length cfg) (toolName d) (sel_arguments sel)]"
    by (simp add: w' w3 t2 sp2) (simp add: w1)
  show "\<exists>defs1 w1 sel w2 defs2 w3 d m.
         getToolDefinitions sys cfg w = (Inr defs1, w1) \<and>
         chooseTool sys cfg q w = (Inr sel, w2) \<and>
         getToolDefinitions sys cfg w2 = (Inr defs2, w3) \<and>
         find (\<lambda>d. name d = sel_name sel) defs2 = Some d \<and>
         m \<le> length MODEL_CANDIDATES \<and>
         trace w' =
           trace w @ session_events (spawned w) cfg @ asks (asked w) (take m MODEL_CANDIDATES) @
           session_events (spawned w + length cfg) cfg @
           [Opened (spawned w + 2 * length cfg) (serverKey d),
            Called (spawned w + 2 * length cfg) (toolName d) (sel_arguments sel)]"
    using p1 ch p2 f m tr by blast
  show "opens (trace w') = opens (trace w) + 2 * length cfg + 1"
    by (simp add: tr opens_append opens_session_events opens_asks)
  show "listings (trace w') = listings (trace w) + 2 * length cfg"
    by (simp add: tr listings_append listings_session_events listings_asks)
next
  show "\<exists>sys cfg q w defs1 w1 sel w2 defs2 w3 r w'.
      getToolDefinitions sys cfg w = (Inr defs1, w1) \<and>
      chooseTool sys cfg q w = (Inr sel, w2) \<and>
      getToolDefinitions sys cfg w2 = (Inr defs2, w3) \<and>
      main sys cfg q w = (Inr r, w') \<and>
      defs1 \<noteq> defs2"
    using shifting_pass_1 shifting_choice[of "''q''"] shifting_pass_2 shifting_main[of "''q''"]
      shifting_catalogs_differ
    by blast
qed

theorem main_aggregates_twice_witness:
  "opens (trace (snd (main shifting demo_cfg ''list my desktop'' start))) = 5 \<and>
   listings (trace (snd (main shifting demo_cfg ''list my desktop'' start))) = 4"
proof -
  have run: "main shifting demo_cfg ''list my desktop'' start =
      (Inr [[0x61, 0x2E, 0x74, 0x78, 0x74], [0x62]],
       snd (main shifting demo_cfg ''list my desktop'' start))"
    by (simp add: shifting_main)
  have "opens (trace (snd (main shifting demo_cfg ''list my desktop'' start))) =
          opens (trace start) + 2 * length demo_cfg + 1 \<and>
        listings (trace (snd (main shifting demo_cfg ''list my desktop'' start))) =
          listings (trace start) + 2 * length demo_cfg"
    using main_aggregates_twice[THEN conjunct2, THEN conjunct1, rule_format, OF run]
    by (rule conjunct2)
  then show ?thesis by (simp add: start_def demo_cfg_def)
qed

end
